theory Spec2Isabelle
  imports Main "HOL-Library.Word"
begin

unbundle bit_operations_syntax

text \<open>
  A model of the bot's lifecycle controller (\<^verbatim>\<open>BoarBot\<close>) and of its reporting path
  (\<^verbatim>\<open>LogDebug\<close>). Every function is modelled with the outside world as an argument:
  what the file system, the network, the chat client and the functions of the bot that
  are defined elsewhere answer. A function returns the list of the effects it has, in
  order, next to its result; an exception is a value.
\<close>

section \<open>JavaScript values the bot handles\<close>

text \<open>
  A thrown value, as far as \<^verbatim>\<open>LogDebug.handleError\<close> inspects it: a string, the
  values \<^verbatim>\<open>null\<close> and \<^verbatim>\<open>undefined\<close> (reading a property of them throws), or any
  other value, of which only the \<^verbatim>\<open>stack\<close> property is read (\<open>None\<close> when it is
  \<^verbatim>\<open>undefined\<close>).
\<close>

datatype thrown = ThrownString string | ThrownObject "string option" | ThrownNullish

text \<open>String concatenation with a value that may be \<^verbatim>\<open>undefined\<close>.\<close>

definition js_str :: "string option \<Rightarrow> string" where
  "js_str v = (case v of None \<Rightarrow> ''undefined'' | Some s \<Rightarrow> s)"

text \<open>
  \<^verbatim>\<open>String.prototype.replace(pattern, replacement)\<close> with a string pattern: the first
  occurrence is replaced, and \<^verbatim>\<open>$$\<close>, \<^verbatim>\<open>$&\<close>, dollar-backtick and dollar-quote of the replacement
  are expanded (a string pattern has no capture groups, so \<^verbatim>\<open>$1\<close> stays as it is).
\<close>

fun find_first :: "string \<Rightarrow> string \<Rightarrow> (string \<times> string) option" where
  "find_first pat [] = (if pat = [] then Some ([], []) else None)"
| "find_first pat (c # cs) =
     (if take (length pat) (c # cs) = pat then Some ([], drop (length pat) (c # cs))
      else (case find_first pat cs of
              None \<Rightarrow> None
            | Some (pre, post) \<Rightarrow> Some (c # pre, post)))"

fun expand_replacement :: "string \<Rightarrow> string \<Rightarrow> string \<Rightarrow> string \<Rightarrow> string" where
  "expand_replacement matched pre post [] = []"
| "expand_replacement matched pre post [c] = [c]"
| "expand_replacement matched pre post (c # d # rest) =
     (if c = CHR ''$'' \<and> d = CHR ''$'' then CHR ''$'' # expand_replacement matched pre post rest
      else if c = CHR ''$'' \<and> d = CHR ''&'' then matched @ expand_replacement matched pre post rest
      else if c = CHR ''$'' \<and> d = CHR 0x60 then pre @ expand_replacement matched pre post rest
      else if c = CHR ''$'' \<and> d = CHR 0x27 then post @ expand_replacement matched pre post rest
      else c # expand_replacement matched pre post (d # rest))"

definition js_replace :: "string \<Rightarrow> string \<Rightarrow> string \<Rightarrow> string" where
  "js_replace s pat rep =
     (case find_first pat s of
        None \<Rightarrow> s
      | Some (pre, post) \<Rightarrow> pre @ expand_replacement pat pre post rep @ post)"

section \<open>The bot's configuration\<close>

record string_config =
  commandDebugPrefix :: string
  error :: string
  pullLink :: string
  githubImg :: string

record path_config =
  databaseFolder :: string
  guildDataFolder :: string
  userDataFolder :: string
  globalDataFolder :: string
  githubFileName :: string

record number_config =
  oneDay :: int

record color_config =
  colorError :: string
  colorDark :: string

record bot_config =
  debugMode :: bool
  logChannel :: string
  updatesChannel :: string
  stringConfig :: string_config
  pathConfig :: path_config
  numberConfig :: number_config
  colorConfig :: color_config

section \<open>LogDebug: the reporting path\<close>

text \<open>Console colours (the enum \<^verbatim>\<open>Colors\<close>).\<close>

definition White :: string where "White = CHR 0x1B # ''[0m''"
definition Yellow :: string where "Yellow = CHR 0x1B # ''[33m''"
definition Grey :: string where "Grey = CHR 0x1B # ''[90m''"
definition Green :: string where "Green = CHR 0x1B # ''[32m''"

datatype interaction_kind = ChatInputCommand | ModalSubmit | Autocomplete | MessageComponent

text \<open>
  What the reporting path reads of an interaction. \<open>getSubcommand\<close> is the outcome of
  \<^verbatim>\<open>interaction.options.getSubcommand()\<close>, which throws when the command has none.
\<close>

record interaction =
  kind :: interaction_kind
  username :: string
  userId :: string
  commandName :: string
  customId :: string
  getSubcommand :: "thrown + string"

text \<open>
  The world outside \<^verbatim>\<open>LogDebug\<close>: whether the client is ready, what
  \<^verbatim>\<open>InteractionUtils.getTextChannel\<close> answers for a channel id (it may reject, or find
  no channel), whether a \<^verbatim>\<open>send\<close> to a channel rejects, the clock's
  \<^verbatim>\<open>toLocaleString()\<close>, the outcome of \<^verbatim>\<open>Replies.handleReply\<close>, and the stack of the
  TypeError the engine throws on \<^verbatim>\<open>(err as Error).stack\<close> for a nullish \<^verbatim>\<open>err\<close>.
\<close>

record log_world =
  clientReady :: bool
  getTextChannel :: "string \<Rightarrow> thrown + string option"
  channelSend :: "string \<Rightarrow> string \<Rightarrow> thrown option"
  localeTime :: string
  handleReply :: "thrown option"
  typeErrorStack :: string

text \<open>
  What the reporting path does to the outside: a line on the console, a \<^verbatim>\<open>send\<close> to a
  channel (with its outcome: \<open>None\<close> delivered, \<open>Some e\<close> rejected with \<open>e\<close>), a reply to
  an interaction, and a promise that rejected with nobody awaiting it.
\<close>

datatype log_effect =
    ConsoleLog string
  | ChannelSend string string "thrown option"
  | Reply string string string
  | UnhandledRejection thrown

definition getPrefixTime :: "log_world \<Rightarrow> string" where
  "getPrefixTime w = ''['' @ Grey @ localeTime w @ White @ '']'' @ [CHR 0x0A]"

text \<open>What is sent to the log channel: the first 1900 characters, in an \<^verbatim>\<open>ansi\<close> block.\<close>

definition logContent :: "string \<Rightarrow> string" where
  "logContent message =
     replicate 3 (CHR 0x60) @ ''ansi'' @ [CHR 0x0A] @ take 1900 message @ replicate 3 (CHR 0x60)"

text \<open>
  \<^verbatim>\<open>sendLogMessage\<close>: the effects, and \<open>Some e\<close> when the returned promise rejects with
  \<open>e\<close>. A rejected \<^verbatim>\<open>send\<close> is swallowed by its own \<^verbatim>\<open>.catch(() => {})\<close>.
\<close>

definition sendLogMessage :: "log_world \<Rightarrow> string \<Rightarrow> bot_config \<Rightarrow> log_effect list \<times> thrown option" where
  "sendLogMessage w message config =
     (if clientReady w then
        (case getTextChannel w (logChannel config) of
           Inl e \<Rightarrow> ([ConsoleLog message], Some e)
         | Inr None \<Rightarrow> ([ConsoleLog message], None)
         | Inr (Some ch) \<Rightarrow>
             (let content = logContent message
              in ([ConsoleLog message, ChannelSend ch content (channelSend w ch content)], None)))
      else ([ConsoleLog message], None))"

text \<open>
  The command prefix both \<^verbatim>\<open>sendDebug\<close> and \<^verbatim>\<open>handleError\<close> build: the three
  \<^verbatim>\<open>%@\<close> of \<^verbatim>\<open>commandDebugPrefix\<close> replaced in turn.
\<close>

definition commandPrefix :: "bot_config \<Rightarrow> interaction \<Rightarrow> string \<Rightarrow> string \<Rightarrow> string" where
  "commandPrefix config i second third =
     js_replace
       (js_replace
          (js_replace (commandDebugPrefix (stringConfig config)) ''%@''
             (username i @ '' ('' @ userId i @ '')''))
          ''%@'' second)
       ''%@'' third"

text \<open>
  The message given to \<^verbatim>\<open>sendDebug\<close>: a string, or another value, of which the model
  keeps the outcome of \<^verbatim>\<open>JSON.stringify\<close> (it throws on a cycle, and answers
  \<^verbatim>\<open>undefined\<close> for a value it cannot serialise).
\<close>

datatype debug_message = DebugString string | DebugValue "thrown + string option"

definition debugPrefix :: string where
  "debugPrefix = ''['' @ Yellow @ ''DEBUG'' @ White @ ''] ''"

text \<open>The debug message with the command prefix in front; \<open>Inl e\<close> when building it throws.\<close>

definition debugText ::
  "bot_config \<Rightarrow> debug_message \<Rightarrow> interaction option \<Rightarrow> thrown + string" where
  "debugText config debugMessage interaction =
     (case (case debugMessage of
              DebugString s \<Rightarrow> Inr (Some s)
            | DebugValue stringified \<Rightarrow> stringified) of
        Inl e \<Rightarrow> Inl e
      | Inr msg \<Rightarrow>
          (case interaction of
             None \<Rightarrow> Inr (js_str msg)
           | Some i \<Rightarrow>
               if kind i \<noteq> MessageComponent then
                 (case getSubcommand i of
                    Inl e \<Rightarrow> Inl e
                  | Inr sub \<Rightarrow> Inr (commandPrefix config i (commandName i) sub @ js_str msg))
               else
                 Inr (commandPrefix config i (takeWhile (\<lambda>c. c \<noteq> CHR ''|'') (customId i)) []
                      @ js_str msg)))"

text \<open>
  \<^verbatim>\<open>sendDebug\<close>: the effects, and \<open>Some e\<close> when it throws \<open>e\<close> to its caller.
  \<^verbatim>\<open>sendLogMessage\<close> is called without \<^verbatim>\<open>await\<close>: it never throws synchronously,
  so the \<^verbatim>\<open>catch\<close> around the call is never entered, and a rejection is left unhandled.
\<close>

definition sendDebug ::
  "log_world \<Rightarrow> debug_message \<Rightarrow> bot_config \<Rightarrow> interaction option \<Rightarrow> log_effect list \<times> thrown option" where
  "sendDebug w debugMessage config interaction =
     (if \<not> debugMode config then ([], None)
      else
        (case debugText config debugMessage interaction of
           Inl e \<Rightarrow> ([], Some e)
         | Inr line \<Rightarrow>
             (let completeString = debugPrefix @ getPrefixTime w @ line
              in (case sendLogMessage w completeString config of
                    (effects, None) \<Rightarrow> (effects, None)
                  | (effects, Some e) \<Rightarrow> (effects @ [UnhandledRejection e], None)))))"

text \<open>
  \<^verbatim>\<open>typeof err === 'string' ? err : (err as Error).stack\<close>: \<open>Inl\<close> is the TypeError of
  reading \<^verbatim>\<open>stack\<close> of a nullish value.
\<close>

definition errString :: "log_world \<Rightarrow> thrown \<Rightarrow> thrown + string option" where
  "errString w err =
     (case err of
        ThrownString s \<Rightarrow> Inr (Some s)
      | ThrownObject stack \<Rightarrow> Inr stack
      | ThrownNullish \<Rightarrow> Inl (ThrownObject (Some (typeErrorStack w))))"

definition errorPrefix :: string where
  "errorPrefix = ''['' @ Green @ ''CAUGHT ERROR'' @ White @ ''] ''"

definition completeErrorString ::
  "log_world \<Rightarrow> bot_config \<Rightarrow> string option \<Rightarrow> interaction option \<Rightarrow> thrown + string" where
  "completeErrorString w config es interaction =
     (case interaction of
        None \<Rightarrow> Inr (errorPrefix @ getPrefixTime w @ js_str es)
      | Some i \<Rightarrow>
          if kind i = ChatInputCommand then
            (case getSubcommand i of
               Inl e \<Rightarrow> Inl e
             | Inr sub \<Rightarrow>
                 Inr (errorPrefix @ getPrefixTime w @ commandPrefix config i (commandName i) sub
                      @ js_str es))
          else Inr (errorPrefix @ getPrefixTime w @ js_str es))"

text \<open>
  The inner \<^verbatim>\<open>try { await this.sendLogMessage(...) } catch { console.log(...) }\<close> of
  \<^verbatim>\<open>handleError\<close>.
\<close>

definition logOrConsole :: "log_world \<Rightarrow> string \<Rightarrow> bot_config \<Rightarrow> log_effect list" where
  "logOrConsole w completeString config =
     (case sendLogMessage w completeString config of
        (effects, None) \<Rightarrow> effects
      | (effects, Some e) \<Rightarrow> effects @ [ConsoleLog completeString])"

text \<open>
  \<^verbatim>\<open>handleError\<close>, with the configuration \<^verbatim>\<open>BoarBotApp.getBot().getConfig()\<close> returns.
  Everything is inside one \<^verbatim>\<open>try\<close> whose \<^verbatim>\<open>catch\<close> calls \<^verbatim>\<open>handleError\<close> again with
  the new error and no interaction, so the returned promise never rejects: the result is
  the list of effects.
\<close>

function handleError :: "log_world \<Rightarrow> bot_config \<Rightarrow> thrown \<Rightarrow> interaction option \<Rightarrow> log_effect list" where
  "handleError w config err interaction =
     (case errString w err of
        Inl e \<Rightarrow> handleError w config e None
      | Inr es \<Rightarrow>
          (case completeErrorString w config es interaction of
             Inl e \<Rightarrow> handleError w config e None
           | Inr completeString \<Rightarrow>
               logOrConsole w completeString config @
               (case interaction of
                  None \<Rightarrow> []
                | Some i \<Rightarrow>
                    if kind i = Autocomplete then []
                    else Reply (userId i) (error (stringConfig config)) (colorError (colorConfig config)) #
                         (case handleReply w of
                            None \<Rightarrow> []
                          | Some e \<Rightarrow> handleError w config e None))))"
  by pat_completeness auto
termination
  by (relation "measure (\<lambda>(w, config, err, interaction).
        (case interaction of None \<Rightarrow> 0 | Some _ \<Rightarrow> 2) + (if err = ThrownNullish then 1 else 0))")
     (auto simp: errString_def completeErrorString_def split: thrown.splits option.splits if_splits sum.splits)

declare handleError.simps [simp del]

text \<open>The lines an effect list prints on the console, and the channel messages it delivers.\<close>

definition consoleLines :: "log_effect list \<Rightarrow> string list" where
  "consoleLines es = concat (map (\<lambda>e. case e of ConsoleLog s \<Rightarrow> [s] | _ \<Rightarrow> []) es)"

definition delivered :: "log_effect list \<Rightarrow> (string \<times> string) list" where
  "delivered es = concat (map (\<lambda>e. case e of ChannelSend ch txt None \<Rightarrow> [(ch, txt)] | _ \<Rightarrow> []) es)"

text \<open>A configuration and a world whose log channel rejects every message, for the examples.\<close>

definition exampleConfig :: bot_config where
  "exampleConfig =
     \<lparr>debugMode = True, logChannel = ''100'', updatesChannel = ''200'',
      stringConfig = \<lparr>commandDebugPrefix = ''%@ used /%@ %@: '', error = ''An error occurred.'',
                      pullLink = ''https://api.github.com/pulls'', githubImg = ''https://github.com/img.png''\<rparr>,
      pathConfig = \<lparr>databaseFolder = ''database/'', guildDataFolder = ''guilds/'',
                    userDataFolder = ''users/'', globalDataFolder = ''database/global/'',
                    githubFileName = ''github.json''\<rparr>,
      numberConfig = \<lparr>oneDay = 86400000\<rparr>,
      colorConfig = \<lparr>colorError = ''#ff0000'', colorDark = ''#101010''\<rparr>\<rparr>"

definition failingChannelWorld :: log_world where
  "failingChannelWorld =
     \<lparr>clientReady = True,
      getTextChannel = (\<lambda>id. Inr (Some id)),
      channelSend = (\<lambda>ch content. Some (ThrownObject (Some ''DiscordAPIError: Missing Access''))),
      localeTime = ''1/1/2024, 12:00:00 AM'',
      handleReply = None,
      typeErrorStack = ''TypeError: Cannot read properties of null''\<rparr>"

text \<open>A world whose lookup of the log channel rejects.\<close>

definition rejectingLookupWorld :: log_world where
  "rejectingLookupWorld =
     failingChannelWorld\<lparr>getTextChannel := (\<lambda>id. Inl (ThrownObject (Some ''Error: channel fetch failed'')))\<rparr>"

section \<open>SHA-256 and the configuration fingerprint\<close>

text \<open>
  \<^verbatim>\<open>crypto.createHash('sha256')\<close>, \<^verbatim>\<open>update(bytes)\<close> and \<^verbatim>\<open>digest('hex')\<close>: the
  SHA-256 of FIPS 180-4 over the bytes, printed as 64 lowercase hexadecimal digits.
\<close>

type_synonym byte = "8 word"
type_synonym word32 = "32 word"
type_synonym hash_state = "word32 \<times> word32 \<times> word32 \<times> word32 \<times> word32 \<times> word32 \<times> word32 \<times> word32"

definition sha_K :: "word32 list" where
  "sha_K =
    [0x428A2F98, 0x71374491, 0xB5C0FBCF, 0xE9B5DBA5, 0x3956C25B, 0x59F111F1, 0x923F82A4, 0xAB1C5ED5,
     0xD807AA98, 0x12835B01, 0x243185BE, 0x550C7DC3, 0x72BE5D74, 0x80DEB1FE, 0x9BDC06A7, 0xC19BF174,
     0xE49B69C1, 0xEFBE4786, 0x0FC19DC6, 0x240CA1CC, 0x2DE92C6F, 0x4A7484AA, 0x5CB0A9DC, 0x76F988DA,
     0x983E5152, 0xA831C66D, 0xB00327C8, 0xBF597FC7, 0xC6E00BF3, 0xD5A79147, 0x06CA6351, 0x14292967,
     0x27B70A85, 0x2E1B2138, 0x4D2C6DFC, 0x53380D13, 0x650A7354, 0x766A0ABB, 0x81C2C92E, 0x92722C85,
     0xA2BFE8A1, 0xA81A664B, 0xC24B8B70, 0xC76C51A3, 0xD192E819, 0xD6990624, 0xF40E3585, 0x106AA070,
     0x19A4C116, 0x1E376C08, 0x2748774C, 0x34B0BCB5, 0x391C0CB3, 0x4ED8AA4A, 0x5B9CCA4F, 0x682E6FF3,
     0x748F82EE, 0x78A5636F, 0x84C87814, 0x8CC70208, 0x90BEFFFA, 0xA4506CEB, 0xBEF9A3F7, 0xC67178F2]"

definition sha_H0 :: hash_state where
  "sha_H0 = (0x6A09E667, 0xBB67AE85, 0x3C6EF372, 0xA54FF53A, 0x510E527F, 0x9B05688C, 0x1F83D9AB, 0x5BE0CD19)"

definition Ch :: "word32 \<Rightarrow> word32 \<Rightarrow> word32 \<Rightarrow> word32" where
  "Ch x y z = (x AND y) XOR (NOT x AND z)"

definition Maj :: "word32 \<Rightarrow> word32 \<Rightarrow> word32 \<Rightarrow> word32" where
  "Maj x y z = (x AND y) XOR (x AND z) XOR (y AND z)"

definition Sigma0 :: "word32 \<Rightarrow> word32" where
  "Sigma0 x = word_rotr 2 x XOR word_rotr 13 x XOR word_rotr 22 x"

definition Sigma1 :: "word32 \<Rightarrow> word32" where
  "Sigma1 x = word_rotr 6 x XOR word_rotr 11 x XOR word_rotr 25 x"

definition sigma0 :: "word32 \<Rightarrow> word32" where
  "sigma0 x = word_rotr 7 x XOR word_rotr 18 x XOR drop_bit 3 x"

definition sigma1 :: "word32 \<Rightarrow> word32" where
  "sigma1 x = word_rotr 17 x XOR word_rotr 19 x XOR drop_bit 10 x"

text \<open>Padding: a one bit, zeros up to 56 modulo 64 bytes, the length in bits on 8 bytes.\<close>

definition sha_pad :: "byte list \<Rightarrow> byte list" where
  "sha_pad bs =
     bs @ [0x80] @ replicate ((119 - length bs mod 64) mod 64) 0
        @ map (\<lambda>i. ucast (drop_bit (8 * i) (word_of_nat (8 * length bs) :: 64 word)))
            [7, 6, 5, 4, 3, 2, 1, 0]"

fun be_words :: "byte list \<Rightarrow> word32 list" where
  "be_words (a # b # c # d # rest) =
     (push_bit 24 (ucast a) OR push_bit 16 (ucast b) OR push_bit 8 (ucast c) OR ucast d) # be_words rest"
| "be_words _ = []"

fun sha_blocks :: "word32 list \<Rightarrow> word32 list list" where
  "sha_blocks [] = []"
| "sha_blocks (w # ws) = take 16 (w # ws) # sha_blocks (drop 16 (w # ws))"

text \<open>The message schedule: \<open>n\<close> more words after the ones given.\<close>

fun sha_schedule :: "nat \<Rightarrow> word32 list \<Rightarrow> word32 list" where
  "sha_schedule 0 ws = ws"
| "sha_schedule (Suc n) ws =
     (let t = length ws
      in sha_schedule n
           (ws @ [sigma1 (ws ! (t - 2)) + ws ! (t - 7) + sigma0 (ws ! (t - 15)) + ws ! (t - 16)]))"

fun sha_round :: "hash_state \<Rightarrow> word32 \<times> word32 \<Rightarrow> hash_state" where
  "sha_round (a, b, c, d, e, f, g, h) (k, w) =
     (let T1 = h + Sigma1 e + Ch e f g + k + w;
          T2 = Sigma0 a + Maj a b c
      in (T1 + T2, a, b, c, d + T1, e, f, g))"

fun sha_add :: "hash_state \<Rightarrow> hash_state \<Rightarrow> hash_state" where
  "sha_add (a, b, c, d, e, f, g, h) (a', b', c', d', e', f', g', h') =
     (a + a', b + b', c + c', d + d', e + e', f + f', g + g', h + h')"

definition sha_compress :: "hash_state \<Rightarrow> word32 list \<Rightarrow> hash_state" where
  "sha_compress H block = sha_add H (foldl sha_round H (zip sha_K (sha_schedule 48 block)))"

definition sha256 :: "byte list \<Rightarrow> hash_state" where
  "sha256 bs = foldl sha_compress sha_H0 (sha_blocks (be_words (sha_pad bs)))"

definition hex_digit :: "word32 \<Rightarrow> char" where
  "hex_digit x = ''0123456789abcdef'' ! unat (x AND 15)"

definition hex32 :: "word32 \<Rightarrow> string" where
  "hex32 w = map (\<lambda>i. hex_digit (drop_bit (4 * i) w)) [7, 6, 5, 4, 3, 2, 1, 0]"

fun hex_digest :: "hash_state \<Rightarrow> string" where
  "hex_digest (a, b, c, d, e, f, g, h) =
     hex32 a @ hex32 b @ hex32 c @ hex32 d @ hex32 e @ hex32 f @ hex32 g @ hex32 h"

text \<open>
  \<^verbatim>\<open>getConfigHash\<close>. The argument is what \<^verbatim>\<open>fs.readFileSync('config.json')\<close> gives: the
  bytes of the file, or the error it throws.
\<close>

definition getConfigHash :: "thrown + byte list \<Rightarrow> thrown + string" where
  "getConfigHash configFile =
     (case configFile of
        Inl e \<Rightarrow> Inl e
      | Inr bytes \<Rightarrow> Inr (hex_digest (sha256 bytes)))"

section \<open>BoarBot: what the bot does to the outside\<close>

text \<open>
  The calls the bot makes that a claim observes, in the order they happen.
  \<^verbatim>\<open>LogDebug.log\<close> (not in the sources at hand) is recorded with its message and its
  fourth argument; \<^verbatim>\<open>LogDebug.handleError\<close> with the error it is given; a file write
  and a removal with their outcomes (\<open>None\<close>: done, \<open>Some e\<close>: threw \<open>e\<close>).
\<close>

record github_data =
  lastURL :: string

record embed =
  embedColor :: string
  embedTitle :: string
  embedURL :: string
  embedDescription :: string
  embedThumbnail :: string

datatype bot_event =
    Log string "bool option"
  | HandleError thrown
  | LoadConfig bool
  | HttpGet string
  | WriteFile string github_data "thrown option"
  | SendEmbed string embed
  | UpdateQuestData
  | RegisterRateLimited
  | StartNotificationCron
  | SetInterval nat
  | QueueBegin string
  | ReadGlobalPowerups
  | QueueEnd string
  | NewPowerupSpawner int
  | StartSpawning
  | SetPresence
  | Mkdir string
  | UsersFetch string
  | UnhandledFetchRejection string
  | Sleep nat
  | RemoveFile string
  | ProcessExit int

section \<open>BoarBot.sendUpdateInfo\<close>

text \<open>
  The first element of the pull-request listing, as far as the code reads it.
  \<open>merged_at\<close> and \<open>body\<close> are \<open>None\<close> when the API gives \<^verbatim>\<open>null\<close>.
\<close>

record pull_request =
  html_url :: string
  merged_at :: "string option"
  title :: string
  body :: "string option"

text \<open>The setters of \<^verbatim>\<open>EmbedBuilder\<close> the code calls, in the order it calls them.\<close>

datatype embed_setter = SetColor | SetTitle | SetURL | SetDescription | SetThumbnail

text \<open>
  The world of one call: the outcome of the \<^verbatim>\<open>axios.get\<close> (the listing, or the error
  thrown), of \<^verbatim>\<open>fs.writeFileSync\<close> on a path, of
  \<^verbatim>\<open>InteractionUtils.getTextChannel\<close> on a channel id, of each setter of
  \<^verbatim>\<open>EmbedBuilder\<close> on the value it is given (the library validates it: \<open>None\<close> when
  it accepts the value, \<open>Some e\<close> when it throws \<open>e\<close>), and the TypeError of calling
  \<^verbatim>\<open>replace\<close> on a \<^verbatim>\<open>null\<close> body.
\<close>

record update_world =
  pullRequests :: "thrown + pull_request list"
  writeFileSync :: "string \<Rightarrow> thrown option"
  textChannel :: "string \<Rightarrow> thrown + string option"
  embedSetter :: "embed_setter \<Rightarrow> string \<Rightarrow> thrown option"
  nullBodyError :: thrown

text \<open>The embed, once every setter has accepted its value.\<close>

definition commitEmbed :: "bot_config \<Rightarrow> pull_request \<Rightarrow> string \<Rightarrow> embed" where
  "commitEmbed config pullReqData commitMsg =
     \<lparr>embedColor = colorDark (colorConfig config),
      embedTitle = title pullReqData,
      embedURL = html_url pullReqData,
      embedDescription = take 500 (js_replace commitMsg (title pullReqData) []) @ ''...'',
      embedThumbnail = githubImg (stringConfig config)\<rparr>"

text \<open>
  The chain \<^verbatim>\<open>new EmbedBuilder().setColor(...).setTitle(...).setURL(...)
  .setDescription(...).setThumbnail(...)\<close>: the setters run in this order, each may throw,
  and the argument of \<^verbatim>\<open>setDescription\<close>, \<^verbatim>\<open>commitMsg.replace(...)\<close>, throws for a
  \<^verbatim>\<open>null\<close> body once the three setters before it have accepted.
\<close>

definition buildCommitEmbed :: "update_world \<Rightarrow> bot_config \<Rightarrow> pull_request \<Rightarrow> thrown + embed" where
  "buildCommitEmbed w config pullReqData =
     (case embedSetter w SetColor (colorDark (colorConfig config)) of
        Some e \<Rightarrow> Inl e
      | None \<Rightarrow>
     (case embedSetter w SetTitle (title pullReqData) of
        Some e \<Rightarrow> Inl e
      | None \<Rightarrow>
     (case embedSetter w SetURL (html_url pullReqData) of
        Some e \<Rightarrow> Inl e
      | None \<Rightarrow>
     (case body pullReqData of
        None \<Rightarrow> Inl (nullBodyError w)
      | Some commitMsg \<Rightarrow>
     (case embedSetter w SetDescription
             (take 500 (js_replace commitMsg (title pullReqData) []) @ ''...'') of
        Some e \<Rightarrow> Inl e
      | None \<Rightarrow>
     (case embedSetter w SetThumbnail (githubImg (stringConfig config)) of
        Some e \<Rightarrow> Inl e
      | None \<Rightarrow> Inr (commitEmbed config pullReqData commitMsg)))))))"

text \<open>
  \<^verbatim>\<open>sendUpdateInfo\<close>: the events, and the cursor record as the call leaves it (the code
  assigns \<^verbatim>\<open>githubData.lastURL\<close> in place). Every error is caught and handed to
  \<^verbatim>\<open>handleError\<close>. The embed is built after the cursor file is written and the
  channel looked up, and it is sent only if there is a channel
  (\<^verbatim>\<open>commitChannel?.send\<close>).
\<close>

definition sendUpdateInfo ::
  "update_world \<Rightarrow> bot_config \<Rightarrow> github_data option \<Rightarrow> bot_event list \<times> github_data option" where
  "sendUpdateInfo w config githubData =
     (case githubData of
        None \<Rightarrow> ([], None)
      | Some g \<Rightarrow>
          (let get = HttpGet (pullLink (stringConfig config)) in
           case pullRequests w of
             Inl e \<Rightarrow> ([get, HandleError e], Some g)
           | Inr [] \<Rightarrow> ([get], Some g)
           | Inr (pullReqData # _) \<Rightarrow>
               if html_url pullReqData \<noteq> lastURL g \<and> merged_at pullReqData \<noteq> None then
                 (let g' = g\<lparr>lastURL := html_url pullReqData\<rparr>;
                      path = globalDataFolder (pathConfig config) @ githubFileName (pathConfig config)
                  in case writeFileSync w path of
                       Some e \<Rightarrow> ([get, WriteFile path g' (Some e), HandleError e], Some g')
                     | None \<Rightarrow>
                         (case textChannel w (updatesChannel config) of
                            Inl e \<Rightarrow> ([get, WriteFile path g' None, HandleError e], Some g')
                          | Inr commitChannel \<Rightarrow>
                              (case buildCommitEmbed w config pullReqData of
                                 Inl e \<Rightarrow> ([get, WriteFile path g' None, HandleError e], Some g')
                               | Inr built \<Rightarrow>
                                   (case commitChannel of
                                      None \<Rightarrow> ([get, WriteFile path g' None], Some g')
                                    | Some ch \<Rightarrow>
                                        ([get, WriteFile path g' None, SendEmbed ch built],
                                         Some g')))))
               else ([get], Some g)))"

section \<open>BoarBot.onStart: the fixed-interval poller\<close>

record quest_data =
  questsStartTimestamp :: int

text \<open>
  What one tick of the \<^verbatim>\<open>setInterval\<close> callback meets: the configuration file, the
  outcome of \<^verbatim>\<open>ConfigHandler.loadConfig\<close> (the configuration it installs, or the error
  it throws), the number of interaction listeners, what \<^verbatim>\<open>DataHandlers.getGithubData\<close>
  and \<^verbatim>\<open>DataHandlers.getGlobalData(Quest)\<close> return, and \<^verbatim>\<open>Date.now()\<close>. Timestamps are
  integers (milliseconds), far below the range where a double stops being exact.
\<close>

record poll_world =
  configFile :: "thrown + byte list"
  loadConfigResult :: "thrown + bot_config"
  listenerCount :: nat
  githubDataRead :: "github_data option"
  updateWorld :: update_world
  questDataRead :: "thrown + quest_data"
  dateNow :: int

text \<open>The state the callback closes over: \<^verbatim>\<open>configHash\<close>, and the bot's live configuration.\<close>

record poll_state =
  configHash :: string
  liveConfig :: bot_config

fun digit_char :: "nat \<Rightarrow> char" where
  "digit_char n = ''0123456789'' ! (n mod 10)"

fun nat_to_string :: "nat \<Rightarrow> string" where
  "nat_to_string n = (if n < 10 then [digit_char n] else nat_to_string (n div 10) @ [digit_char n])"

declare nat_to_string.simps [simp del]

text \<open>
  The first statement of the callback: recompute the fingerprint, and on a mismatch store
  the new one and await \<^verbatim>\<open>loadConfig()\<close>. \<open>Inl\<close> when it throws (the callback's promise
  then rejects, and the rest of the tick does not run).
\<close>

definition reloadIfChanged ::
  "poll_world \<Rightarrow> poll_state \<Rightarrow> (bot_event list \<times> poll_state \<times> thrown) + (bot_event list \<times> poll_state)" where
  "reloadIfChanged w st =
     (case getConfigHash (configFile w) of
        Inl e \<Rightarrow> Inl ([], st, e)
      | Inr h \<Rightarrow>
          if configHash st \<noteq> h then
            (case getConfigHash (configFile w) of
               Inl e \<Rightarrow> Inl ([], st, e)
             | Inr h' \<Rightarrow>
                 (case loadConfigResult w of
                    Inl e \<Rightarrow> Inl ([LoadConfig False], st\<lparr>configHash := h'\<rparr>, e)
                  | Inr config \<Rightarrow> Inr ([LoadConfig False], st\<lparr>configHash := h', liveConfig := config\<rparr>)))
          else Inr ([], st))"

text \<open>Whether the quest window is over: the comparison of the callback's last statement.\<close>

definition questExpired :: "bot_config \<Rightarrow> quest_data \<Rightarrow> int \<Rightarrow> bool" where
  "questExpired config questData now \<longleftrightarrow>
     questsStartTimestamp questData + oneDay (numberConfig config) * 7 < now"

text \<open>The rest of the callback, under the configuration \<^verbatim>\<open>getConfig()\<close> then returns.\<close>

definition dependentJobs :: "poll_world \<Rightarrow> bot_config \<Rightarrow> bot_event list \<times> thrown option" where
  "dependentJobs w config =
     (let events =
            Log (''Interaction Listeners: '' @ nat_to_string (listenerCount w)) None
            # fst (sendUpdateInfo (updateWorld w) config (githubDataRead w))
      in case questDataRead w of
           Inl e \<Rightarrow> (events, Some e)
         | Inr questData \<Rightarrow>
             if questExpired config questData (dateNow w) then (events @ [UpdateQuestData], None)
             else (events, None))"

text \<open>
  One tick: the events, the state it leaves, and \<open>Some e\<close> when the callback's promise
  rejects with \<open>e\<close>.
\<close>

definition pollTick :: "poll_world \<Rightarrow> poll_state \<Rightarrow> bot_event list \<times> poll_state \<times> thrown option" where
  "pollTick w st =
     (case reloadIfChanged w st of
        Inl (events, st', e) \<Rightarrow> (events, st', Some e)
      | Inr (events, st') \<Rightarrow>
          (case dependentJobs w (liveConfig st') of
             (events', rejected) \<Rightarrow> (events @ events', st', rejected)))"

text \<open>The announcements and the cursor writes among a list of events.\<close>

definition announcements :: "bot_event list \<Rightarrow> (string \<times> embed) list" where
  "announcements es = concat (map (\<lambda>e. case e of SendEmbed ch em \<Rightarrow> [(ch, em)] | _ \<Rightarrow> []) es)"

definition cursorWrites :: "bot_event list \<Rightarrow> (string \<times> github_data \<times> thrown option) list" where
  "cursorWrites es = concat (map (\<lambda>e. case e of WriteFile p g r \<Rightarrow> [(p, g, r)] | _ \<Rightarrow> []) es)"


text \<open>
  Example inputs: a cursor at X, a merged pull request Y, a world where the updates
  channel resolves and one where it does not; in both the embed setters accept every
  value.
\<close>

definition cursorX :: github_data where
  "cursorX = \<lparr>lastURL = ''https://github.com/pull/X''\<rparr>"

definition mergedY :: pull_request where
  "mergedY = \<lparr>html_url = ''https://github.com/pull/Y'', merged_at = Some ''2024-01-01T00:00:00Z'',
              title = ''Release'', body = Some ''Release notes''\<rparr>"

definition channelWorld :: update_world where
  "channelWorld =
     \<lparr>pullRequests = Inr [mergedY], writeFileSync = (\<lambda>path. None),
      textChannel = (\<lambda>id. Inr (Some id)), embedSetter = (\<lambda>setter v. None),
      nullBodyError = ThrownObject (Some ''TypeError: Cannot read properties of null'')\<rparr>"

definition noChannelWorld :: update_world where
  "noChannelWorld =
     \<lparr>pullRequests = Inr [mergedY], writeFileSync = (\<lambda>path. None),
      textChannel = (\<lambda>id. Inr None), embedSetter = (\<lambda>setter v. None),
      nullBodyError = ThrownObject (Some ''TypeError: Cannot read properties of null'')\<rparr>"

text \<open>
  A tick exactly seven days after the quest window started, with an unchanged
  configuration file, and a tick that finds the file changed.
\<close>

definition boundaryWorld :: poll_world where
  "boundaryWorld =
     \<lparr>configFile = Inr [], loadConfigResult = Inr exampleConfig, listenerCount = 1,
      githubDataRead = None, updateWorld = channelWorld,
      questDataRead = Inr \<lparr>questsStartTimestamp = 1000\<rparr>,
      dateNow = 1000 + 7 * 86400000\<rparr>"

definition unchangedState :: poll_state where
  "unchangedState = \<lparr>configHash = hex_digest (sha256 []), liveConfig = exampleConfig\<rparr>"



section \<open>BoarBot.fixGuildData\<close>

text \<open>
  What \<^verbatim>\<open>JSON.parse\<close> returns. Numbers are kept as integers: of a number the code only
  asks whether it is zero.
\<close>

datatype json =
    JNull
  | JBool bool
  | JNumber int
  | JString string
  | JArray "json list"
  | JObject "(string \<times> json) list"

text \<open>
  A file of the guild folder, as \<^verbatim>\<open>JSON.parse(fs.readFileSync(path, 'utf-8'))\<close> meets
  it: the value parsed, or the error thrown (a SyntaxError for malformed JSON).
\<close>

datatype file_content = Unparsable thrown | Parsed json

type_synonym folder = "(string \<times> file_content) list"

text \<open>JavaScript truthiness of a parsed value.\<close>

fun truthy :: "json \<Rightarrow> bool" where
  "truthy JNull = False"
| "truthy (JBool b) = b"
| "truthy (JNumber n) = (n \<noteq> 0)"
| "truthy (JString s) = (s \<noteq> [])"
| "truthy (JArray xs) = True"
| "truthy (JObject props) = True"

text \<open>
  The test \<^verbatim>\<open>guildData.fullySetup\<close> of the \<^verbatim>\<open>if\<close>: reading the property of
  \<^verbatim>\<open>null\<close> throws (the error is the argument), of an object without it gives
  \<^verbatim>\<open>undefined\<close>, which is falsy, as it does of any other value.
\<close>

fun fullySetup :: "thrown \<Rightarrow> json \<Rightarrow> thrown + bool" where
  "fullySetup nullError JNull = Inl nullError"
| "fullySetup nullError (JObject props) =
     (case map_of props ''fullySetup'' of None \<Rightarrow> Inr False | Some v \<Rightarrow> Inr (truthy v))"
| "fullySetup nullError _ = Inr False"

text \<open>
  The file system and engine as \<^verbatim>\<open>fixGuildData\<close> meets them: whether the database
  folder exists, the entries of the guild folder in the order \<^verbatim>\<open>readdirSync\<close> lists them
  (\<open>None\<close> when the folder does not exist), the outcomes of \<^verbatim>\<open>mkdirSync\<close> and
  \<^verbatim>\<open>readdirSync\<close>, and the TypeError of reading a property of \<^verbatim>\<open>null\<close>. Removing a
  listed file is taken to succeed.
\<close>

record guild_world =
  databaseFolderExists :: bool
  guildFolder :: "folder option"
  mkdirSync :: "string \<Rightarrow> thrown option"
  readdirSync :: "thrown option"
  nullReadError :: thrown

datatype outcome = Returned | Threw thrown | Exited int

definition removeFile :: "string \<Rightarrow> folder \<Rightarrow> folder" where
  "removeFile name dir = filter (\<lambda>(n, content). n \<noteq> name) dir"

text \<open>
  The \<^verbatim>\<open>for\<close> loop over the listing: the events, the folder it leaves, and the error
  thrown, if any. Nothing catches it: an error ends the loop and leaves
  \<^verbatim>\<open>fixGuildData\<close>.
\<close>

fun sweepGuildFiles ::
  "thrown \<Rightarrow> string \<Rightarrow> folder \<Rightarrow> folder \<Rightarrow> bot_event list \<times> folder \<times> thrown option" where
  "sweepGuildFiles nullError guildPath [] dir = ([], dir, None)"
| "sweepGuildFiles nullError guildPath ((guildFile, content) # guildDataFiles) dir =
     (case content of
        Unparsable e \<Rightarrow> ([], dir, Some e)
      | Parsed guildData \<Rightarrow>
          (case fullySetup nullError guildData of
             Inl e \<Rightarrow> ([], dir, Some e)
           | Inr True \<Rightarrow> sweepGuildFiles nullError guildPath guildDataFiles dir
           | Inr False \<Rightarrow>
               (case sweepGuildFiles nullError guildPath guildDataFiles (removeFile guildFile dir) of
                  (events, dir', thrown) \<Rightarrow>
                    (RemoveFile (guildPath @ guildFile)
                     # Log (''Deleted unfinished guild file: '' @ guildFile) None
                     # events, dir', thrown))))"

text \<open>
  The \<^verbatim>\<open>try\<close> block: create the folders that are missing and list the guild folder.
  \<open>Inl\<close> carries the events up to the error and the error.
\<close>

definition listGuildFolder ::
  "guild_world \<Rightarrow> bot_config \<Rightarrow> (bot_event list \<times> thrown) + (bot_event list \<times> folder)" where
  "listGuildFolder w config =
     (let dbPath = databaseFolder (pathConfig config);
          guildPath = dbPath @ guildDataFolder (pathConfig config)
      in case (if databaseFolderExists w then Inr []
               else (case mkdirSync w dbPath of
                       Some e \<Rightarrow> Inl e
                     | None \<Rightarrow> Inr [Mkdir dbPath])) of
           Inl e \<Rightarrow> Inl ([], e)
         | Inr made \<Rightarrow>
             (case (case guildFolder w of
                      Some dir \<Rightarrow> Inr (made, dir)
                    | None \<Rightarrow>
                        (case mkdirSync w guildPath of
                           Some e \<Rightarrow> Inl (made, e)
                         | None \<Rightarrow> Inr (made @ [Mkdir guildPath], []))) of
                Inl failed \<Rightarrow> Inl failed
              | Inr (made', dir) \<Rightarrow>
                  (case readdirSync w of
                     Some e \<Rightarrow> Inl (made', e)
                   | None \<Rightarrow> Inr (made', dir))))"

text \<open>
  \<^verbatim>\<open>fixGuildData\<close>: the events, the guild folder it leaves (\<open>None\<close> when there is
  none), and how it ends: it returns, it throws, or the process exits.
\<close>

definition fixGuildData :: "guild_world \<Rightarrow> bot_config \<Rightarrow> bot_event list \<times> folder option \<times> outcome" where
  "fixGuildData w config =
     (case listGuildFolder w config of
        Inl (events, e) \<Rightarrow>
          (events @ [HandleError e, ProcessExit (- 1)], guildFolder w, Exited (- 1))
      | Inr (events, guildDataFiles) \<Rightarrow>
          (case sweepGuildFiles (nullReadError w)
                  (databaseFolder (pathConfig config) @ guildDataFolder (pathConfig config))
                  guildDataFiles guildDataFiles of
             (events', dir, Some e) \<Rightarrow> (events @ events', Some dir, Threw e)
           | (events', dir, None) \<Rightarrow>
               (events @ events' @ [Log ''Guild data fixed!'' None], Some dir, Returned)))"

text \<open>
  Example folders: the two records of the specification's scenario, and a folder whose
  first file is malformed and whose second is an abandoned setup.
\<close>

definition guildRecord :: "bool \<Rightarrow> file_content" where
  "guildRecord flag = Parsed (JObject [(''fullySetup'', JBool flag), (''isSBServer'', JBool False)])"

definition scenarioWorld :: guild_world where
  "scenarioWorld =
     \<lparr>databaseFolderExists = True,
      guildFolder = Some [(''A.json'', guildRecord False), (''B.json'', guildRecord True)],
      mkdirSync = (\<lambda>path. None), readdirSync = None,
      nullReadError = ThrownObject (Some ''TypeError: Cannot read properties of null'')\<rparr>"

definition malformedWorld :: guild_world where
  "malformedWorld =
     \<lparr>databaseFolderExists = True,
      guildFolder = Some [(''A.json'', guildRecord True),
                          (''M.json'', Unparsable (ThrownObject (Some ''SyntaxError: Unexpected end of JSON input''))),
                          (''Z.json'', guildRecord False)],
      mkdirSync = (\<lambda>path. None), readdirSync = None,
      nullReadError = ThrownObject (Some ''TypeError: Cannot read properties of null'')\<rparr>"

text \<open>
  The boolean \<^verbatim>\<open>fullySetup\<close> flag of a guild record (\<open>None\<close> for a file that is not
  an object with such a flag), whether the loop keeps a file, and the names and events of
  the removals the loop makes over a listing.
\<close>

definition flagOf :: "file_content \<Rightarrow> bool option" where
  "flagOf content =
     (case content of
        Parsed (JObject props) \<Rightarrow>
          (case map_of props ''fullySetup'' of Some (JBool b) \<Rightarrow> Some b | _ \<Rightarrow> None)
      | _ \<Rightarrow> None)"

definition keptBySweep :: "thrown \<Rightarrow> file_content \<Rightarrow> bool" where
  "keptBySweep nullError content =
     (case content of Parsed j \<Rightarrow> fullySetup nullError j = Inr True | Unparsable e \<Rightarrow> False)"

definition readable :: "thrown \<Rightarrow> file_content \<Rightarrow> bool" where
  "readable nullError content =
     (case content of
        Parsed j \<Rightarrow> (case fullySetup nullError j of Inr b \<Rightarrow> True | Inl e \<Rightarrow> False)
      | Unparsable e \<Rightarrow> False)"

definition removedNames :: "thrown \<Rightarrow> folder \<Rightarrow> string list" where
  "removedNames nullError files = map fst (filter (\<lambda>(n, c). \<not> keptBySweep nullError c) files)"

definition removalEvents :: "thrown \<Rightarrow> string \<Rightarrow> folder \<Rightarrow> bot_event list" where
  "removalEvents nullError guildPath files =
     concat (map (\<lambda>(n, c). if keptBySweep nullError c then []
                             else [RemoveFile (guildPath @ n),
                                   Log (''Deleted unfinished guild file: '' @ n) None]) files)"

definition removedPaths :: "bot_event list \<Rightarrow> string list" where
  "removedPaths events = concat (map (\<lambda>e. case e of RemoveFile p \<Rightarrow> [p] | _ \<Rightarrow> []) events)"

section \<open>BoarBot.onStart\<close>

record powerup_data =
  nextPowerup :: int

text \<open>
  Modelled from the spec: \<^verbatim>\<open>Queue.addQueue\<close> (util/interactions/Queue, not in the
  sources at hand), as \<^verbatim>\<open>onStart\<close> awaits it. The specification's Keyed Task Queue
  begins the work once the chain of its key has settled, runs it exactly once, and
  returns a future that settles with the work's own outcome. The argument is what running
  the work gives: its events, its result and \<open>Some e\<close> when it rejects with \<open>e\<close>; the
  begin and the end of the run are marked with the key.
\<close>

definition addQueue ::
  "bot_event list \<times> 'a \<times> thrown option \<Rightarrow> string \<Rightarrow> bot_event list \<times> 'a \<times> thrown option" where
  "addQueue work key =
     (case work of
        (events, result, rejected) \<Rightarrow> (QueueBegin key # events @ [QueueEnd key], result, rejected))"

text \<open>
  A call of \<^verbatim>\<open>client.users.fetch(id)\<close> as \<^verbatim>\<open>onStart\<close> makes it, without
  \<^verbatim>\<open>await\<close>: it throws before returning a promise, or it returns a promise that
  later resolves or rejects.
\<close>

datatype fetch_outcome = FetchThrows thrown | FetchResolves | FetchRejects thrown

text \<open>
  The world as \<^verbatim>\<open>onStart\<close> meets it: the configuration file, what
  \<^verbatim>\<open>DataHandlers.getGlobalData(Powerups)\<close> returns or throws, the outcome of
  \<^verbatim>\<open>setPresence\<close> on \<^verbatim>\<open>client.user\<close>, the names \<^verbatim>\<open>readdirSync\<close> lists in the user
  folder (\<open>None\<close> when the folder does not exist), the outcomes of \<^verbatim>\<open>mkdirSync\<close> and
  \<^verbatim>\<open>readdirSync\<close> there, and of each \<^verbatim>\<open>users.fetch\<close>.
\<close>

record start_world =
  startConfigFile :: "thrown + byte list"
  powerupsRead :: "thrown + powerup_data"
  setPresence :: "thrown option"
  userFolder :: "string list option"
  userMkdir :: "thrown option"
  userReaddir :: "thrown option"
  usersFetch :: "string \<Rightarrow> fetch_outcome"

text \<open>
  The work queued under \<^verbatim>\<open>'start' + 'global'\<close>: read the powerup record and take its
  \<^verbatim>\<open>nextPowerup\<close>; an error is caught inside the work and handed to
  \<^verbatim>\<open>handleError\<close>, which is awaited and returns. The second component is
  \<^verbatim>\<open>timeUntilPow\<close> after the work, from its value before.
\<close>

definition readPowerupWork :: "start_world \<Rightarrow> int \<Rightarrow> bot_event list \<times> int \<times> thrown option" where
  "readPowerupWork w timeUntilPow =
     (case powerupsRead w of
        Inr powerupData \<Rightarrow> ([ReadGlobalPowerups], nextPowerup powerupData, None)
      | Inl err \<Rightarrow> ([ReadGlobalPowerups, HandleError err], timeUntilPow, None))"

text \<open>The statements from \<^verbatim>\<open>let timeUntilPow = 0\<close> to \<^verbatim>\<open>startSpawning()\<close>.\<close>

definition startPowerups :: "start_world \<Rightarrow> bot_event list \<times> thrown option" where
  "startPowerups w =
     (case addQueue (readPowerupWork w 0) (''start'' @ ''global'') of
        (events, timeUntilPow, Some err) \<Rightarrow> (events, Some err)
      | (events, timeUntilPow, None) \<Rightarrow>
          (events @ [NewPowerupSpawner timeUntilPow, StartSpawning], None))"

text \<open>
  The loop over the user files. The promise of \<^verbatim>\<open>users.fetch\<close> is dropped, so only a
  synchronous throw reaches the \<^verbatim>\<open>catch\<close>; a promise that rejects is left unhandled
  (noted after the call), and the loop sleeps and goes on.
\<close>

fun warmUserCache :: "(string \<Rightarrow> fetch_outcome) \<Rightarrow> string list \<Rightarrow> bot_event list" where
  "warmUserCache fetch [] = []"
| "warmUserCache fetch (userFile # userFiles) =
     (let userId = takeWhile (\<lambda>c. c \<noteq> CHR ''.'') userFile
      in (case fetch userId of
            FetchThrows e \<Rightarrow> [HandleError (ThrownString (''Failed to find user '' @ userId))]
          | FetchResolves \<Rightarrow> [UsersFetch userId, Sleep 1000]
          | FetchRejects e \<Rightarrow> [UsersFetch userId, UnhandledFetchRejection userId, Sleep 1000])
         @ warmUserCache fetch userFiles)"

text \<open>The statements after the powerup spawner, to the end of the \<^verbatim>\<open>try\<close> block.\<close>

definition finishStart :: "start_world \<Rightarrow> bot_config \<Rightarrow> bot_event list \<times> thrown option" where
  "finishStart w config =
     (case setPresence w of
        Some e \<Rightarrow> ([], Some e)
      | None \<Rightarrow>
          (let online = [SetPresence, Log ''All functions online!'' (Some True)];
               userPath = databaseFolder (pathConfig config) @ userDataFolder (pathConfig config)
           in case (case userFolder w of
                      Some userFiles \<Rightarrow> Inr (online, userFiles)
                    | None \<Rightarrow>
                        (case userMkdir w of
                           Some e \<Rightarrow> Inl (online, e)
                         | None \<Rightarrow> Inr (online @ [Mkdir userPath], []))) of
                Inl (events, e) \<Rightarrow> (events, Some e)
              | Inr (events, userFiles) \<Rightarrow>
                  (case userReaddir w of
                     Some e \<Rightarrow> (events, Some e)
                   | None \<Rightarrow> (events @ warmUserCache (usersFetch w) userFiles, None))))"

text \<open>
  \<^verbatim>\<open>onStart\<close>: the body of the \<^verbatim>\<open>try\<close>, whose \<^verbatim>\<open>catch\<close> hands any error to
  \<^verbatim>\<open>handleError\<close>. The handler of \<^verbatim>\<open>rateLimited\<close>, the notification cron and the
  poller are recorded where they are installed.
\<close>

definition onStart :: "start_world \<Rightarrow> bot_config \<Rightarrow> bot_event list" where
  "onStart w config =
     (let boot = [Log ''Successfully logged in! Bot online!'' None, RegisterRateLimited,
                  StartNotificationCron]
      in case getConfigHash (startConfigFile w) of
           Inl e \<Rightarrow> boot @ [HandleError e]
         | Inr hash \<Rightarrow>
             (case startPowerups w of
                (events, Some e) \<Rightarrow> boot @ [SetInterval 120000] @ events @ [HandleError e]
              | (events, None) \<Rightarrow>
                  (case finishStart w config of
                     (events', Some e) \<Rightarrow> boot @ [SetInterval 120000] @ events @ events' @ [HandleError e]
                   | (events', None) \<Rightarrow> boot @ [SetInterval 120000] @ events @ events')))"

text \<open>
  Example worlds: a boot whose powerup record holds 5000, one whose read of the record
  throws, and one with a user file whose fetch rejects.
\<close>

definition bootWorld :: start_world where
  "bootWorld =
     \<lparr>startConfigFile = Inr [], powerupsRead = Inr \<lparr>nextPowerup = 5000\<rparr>, setPresence = None,
      userFolder = Some [''123.json'', ''456.json''], userMkdir = None, userReaddir = None,
      usersFetch = (\<lambda>id. if id = ''123'' then FetchRejects (ThrownObject (Some ''DiscordAPIError: Unknown User''))
                           else FetchResolves)\<rparr>"

definition brokenPowerupWorld :: start_world where
  "brokenPowerupWorld =
     bootWorld\<lparr>powerupsRead := Inl (ThrownObject (Some ''SyntaxError: Unexpected token''))\<rparr>"

text \<open>The countdowns of the spawners constructed, and the errors handed to handleError.\<close>

definition spawnersConstructed :: "bot_event list \<Rightarrow> int list" where
  "spawnersConstructed events =
     concat (map (\<lambda>e. case e of NewPowerupSpawner n \<Rightarrow> [n] | _ \<Rightarrow> []) events)"

definition errorsHandled :: "bot_event list \<Rightarrow> thrown list" where
  "errorsHandled events = concat (map (\<lambda>e. case e of HandleError t \<Rightarrow> [t] | _ \<Rightarrow> []) events)"

section \<open>The Keyed Task Queue\<close>

text \<open>
  Modelled from the spec: the Keyed Task Queue (\<^verbatim>\<open>Queue\<close> of util/interactions/Queue,
  not in the sources at hand). The specification: the queue keeps, for each key, a chain;
  on \<^verbatim>\<open>enqueue(key, work)\<close>, if no chain exists for the key the work begins
  immediately, and otherwise it begins only after the existing chain has settled, whether
  the work before it succeeded or failed. The model keeps for each key the works not yet
  settled, oldest first (the first is the one running), and the trace of what began and
  ended. Scheduling is cooperative: what happens is a sequence of actions, each either a
  call of \<^verbatim>\<open>enqueue\<close> or the settling of the work that runs under a key, with its
  outcome (\<open>True\<close>: fulfilled, \<open>False\<close>: rejected).
\<close>

datatype 'w queue_action = Enqueue string 'w | Settle string bool

datatype 'w queue_event = Begin string 'w | End string 'w bool

record 'w task_queue =
  chains :: "string \<Rightarrow> 'w list"
  trace :: "'w queue_event list"

definition emptyQueue :: "'w task_queue" where
  "emptyQueue = \<lparr>chains = (\<lambda>key. []), trace = []\<rparr>"

definition enqueue :: "string \<Rightarrow> 'w \<Rightarrow> 'w task_queue \<Rightarrow> 'w task_queue" where
  "enqueue key work q =
     (if chains q key = []
      then q\<lparr>chains := (chains q)(key := [work]), trace := trace q @ [Begin key work]\<rparr>
      else q\<lparr>chains := (chains q)(key := chains q key @ [work])\<rparr>)"

definition settle :: "string \<Rightarrow> bool \<Rightarrow> 'w task_queue \<Rightarrow> 'w task_queue" where
  "settle key ok q =
     (case chains q key of
        [] \<Rightarrow> q
      | work # waiting \<Rightarrow>
          q\<lparr>chains := (chains q)(key := waiting),
            trace := trace q @ End key work ok
                     # (case waiting of [] \<Rightarrow> [] | following # later \<Rightarrow> [Begin key following])\<rparr>)"

fun queueStep :: "'w task_queue \<Rightarrow> 'w queue_action \<Rightarrow> 'w task_queue" where
  "queueStep q (Enqueue key work) = enqueue key work q"
| "queueStep q (Settle key ok) = settle key ok q"

definition runQueue :: "'w queue_action list \<Rightarrow> 'w task_queue" where
  "runQueue actions = foldl queueStep emptyQueue actions"

text \<open>
  What a claim about one key looks at: the works submitted under the key, in submission
  order; the begins and ends under the key, in trace order; and the trace of running a
  list of works one after the other.
\<close>

datatype 'w phase = Started 'w | Finished 'w

fun actionKey :: "'w queue_action \<Rightarrow> string" where
  "actionKey (Enqueue key work) = key"
| "actionKey (Settle key ok) = key"

definition submitted :: "string \<Rightarrow> 'w queue_action list \<Rightarrow> 'w list" where
  "submitted key actions =
     concat (map (\<lambda>a. case a of Enqueue k work \<Rightarrow> (if k = key then [work] else []) | Settle k ok \<Rightarrow> [])
                 actions)"

definition keyTrace :: "string \<Rightarrow> 'w queue_event list \<Rightarrow> 'w phase list" where
  "keyTrace key events =
     concat (map (\<lambda>e. case e of Begin k work \<Rightarrow> (if k = key then [Started work] else [])
                              | End k work ok \<Rightarrow> (if k = key then [Finished work] else []))
                 events)"

definition oneAtATime :: "'w list \<Rightarrow> 'w phase list" where
  "oneAtATime works = concat (map (\<lambda>work. [Started work, Finished work]) works)"

text \<open>
  The invariant of one key: the works submitted are those done followed by those still
  in the chain, and the key's trace is the works done, one at a time, followed by the
  begin of the work that runs.
\<close>

definition keyInvariant :: "string \<Rightarrow> 'w list \<Rightarrow> 'w task_queue \<Rightarrow> 'w list \<Rightarrow> bool" where
  "keyInvariant key subm q finished \<longleftrightarrow>
     subm = finished @ chains q key
     \<and> keyTrace key (trace q)
       = oneAtATime finished @ (case chains q key of [] \<Rightarrow> [] | work # waiting \<Rightarrow> [Started work])"

text \<open>
  An example run: two works under key a, the first of which fails, and one under key b
  submitted after them.
\<close>

definition exampleRun :: "nat queue_action list" where
  "exampleRun = [Enqueue ''a'' 1, Enqueue ''a'' 2, Enqueue ''b'' 3,
                 Settle ''a'' False, Settle ''b'' True, Settle ''a'' True]"

section \<open>Properties of the reporting path\<close>

lemma sendLogMessage_console_first:
  "\<exists>rest. fst (sendLogMessage w m config) = ConsoleLog m # rest"
  by (simp add: sendLogMessage_def Let_def split: sum.splits option.splits)

lemma sendLogMessage_console_once:
  "consoleLines (fst (sendLogMessage w m config)) = [m]"
  by (simp add: sendLogMessage_def consoleLines_def Let_def split: sum.splits option.splits)

lemma sendLogMessage_resolves:
  "(\<forall>e. getTextChannel w (logChannel config) \<noteq> Inl e) \<Longrightarrow> snd (sendLogMessage w m config) = None"
  by (simp add: sendLogMessage_def Let_def split: sum.splits option.splits)

lemma sendLogMessage_console_only:
  assumes "\<forall>ch content. channelSend w ch content \<noteq> None"
  shows "delivered (fst (sendLogMessage w m config)) = []"
proof (cases "getTextChannel w (logChannel config)")
  case (Inl e)
  then show ?thesis by (simp add: sendLogMessage_def delivered_def)
next
  case (Inr found)
  show ?thesis
  proof (cases found)
    case None
    with Inr show ?thesis by (simp add: sendLogMessage_def delivered_def)
  next
    case (Some ch)
    obtain e where "channelSend w ch (logContent m) = Some e"
      using assms[rule_format, of ch "logContent m"] by auto
    with Inr Some show ?thesis by (simp add: sendLogMessage_def delivered_def)
  qed
qed

lemma sendLogMessage_no_unhandled:
  "UnhandledRejection e \<notin> set (fst (sendLogMessage w m config))"
  by (simp add: sendLogMessage_def Let_def split: sum.splits option.splits)

lemma logOrConsole_no_unhandled:
  "UnhandledRejection e \<notin> set (logOrConsole w m config)"
  using sendLogMessage_no_unhandled[of e w m config]
  by (cases "sendLogMessage w m config") (auto simp: logOrConsole_def split: option.splits)

lemma logOrConsole_first: "\<exists>rest. logOrConsole w m config = ConsoleLog m # rest"
  using sendLogMessage_console_first[of w m config]
  by (cases "sendLogMessage w m config") (auto simp: logOrConsole_def split: option.splits)

text \<open>No rejection escapes \<^verbatim>\<open>handleError\<close>: by induction along its own recursion.\<close>

lemma handleError_no_unhandled:
  "UnhandledRejection e \<notin> set (handleError w config err interaction)"
proof (induction w config err interaction rule: handleError.induct)
  case (1 w config err interaction)
  show ?case
    apply (subst handleError.simps)
    using 1 logOrConsole_no_unhandled
    apply (auto simp: Let_def split: sum.splits option.splits if_splits)
    done
qed

lemma handleError_prints:
  "errString w err = Inr es \<Longrightarrow> completeErrorString w config es interaction = Inr completeString
   \<Longrightarrow> \<exists>rest. handleError w config err interaction = ConsoleLog completeString # rest"
  using logOrConsole_first[of w completeString config]
  by (subst handleError.simps) auto

lemma sendDebug_prints:
  "debugMode config \<Longrightarrow> debugText config debugMessage interaction = Inr line
   \<Longrightarrow> (\<exists>rest. fst (sendDebug w debugMessage config interaction)
                = ConsoleLog (debugPrefix @ getPrefixTime w @ line) # rest)
       \<and> snd (sendDebug w debugMessage config interaction) = None"
  using sendLogMessage_console_first[of w "debugPrefix @ getPrefixTime w @ line" config]
  by (cases "sendLogMessage w (debugPrefix @ getPrefixTime w @ line) config")
     (auto simp: sendDebug_def Let_def split: option.splits)

text \<open>
  What holds of the reporting path. Every message that reaches \<^verbatim>\<open>sendLogMessage\<close>
  is printed on the console, first and once; when the client is ready and the log channel
  is found, the first 1900 characters are sent to it in an \<^verbatim>\<open>ansi\<close> block; a
  \<^verbatim>\<open>send\<close> that rejects is swallowed, so that \<^verbatim>\<open>sendLogMessage\<close> resolves unless the
  channel lookup itself rejects; and \<^verbatim>\<open>handleError\<close>, which awaits the call inside a
  \<^verbatim>\<open>try\<close>, lets no rejection escape.
\<close>

lemma sendLogMessage_mirrors:
  "clientReady w \<Longrightarrow> getTextChannel w (logChannel config) = Inr (Some ch) \<Longrightarrow>
   sendLogMessage w m config
     = ([ConsoleLog m, ChannelSend ch (logContent m) (channelSend w ch (logContent m))], None)"
  by (simp add: sendLogMessage_def Let_def)

lemma sendLogMessage_delivered:
  "clientReady w \<Longrightarrow> getTextChannel w (logChannel config) = Inr (Some ch) \<Longrightarrow>
   channelSend w ch (logContent m) = None \<Longrightarrow>
   delivered (fst (sendLogMessage w m config)) = [(ch, logContent m)]"
  by (simp add: sendLogMessage_def delivered_def Let_def)

lemma reporting_path_console_and_swallowed_send:
  "(\<exists>rest. fst (sendLogMessage w m config) = ConsoleLog m # rest)
   \<and> consoleLines (fst (sendLogMessage w m config)) = [m]
   \<and> ((\<forall>e. getTextChannel w (logChannel config) \<noteq> Inl e) \<longrightarrow> snd (sendLogMessage w m config) = None)
   \<and> ((\<forall>ch content. channelSend w ch content \<noteq> None) \<longrightarrow>
        delivered (fst (sendLogMessage w m config)) = [])
   \<and> (errString w err = Inr es \<and> completeErrorString w config es interaction = Inr completeString \<longrightarrow>
        (\<exists>rest. handleError w config err interaction = ConsoleLog completeString # rest))
   \<and> UnhandledRejection e \<notin> set (handleError w config err interaction)
   \<and> (debugMode config \<and> debugText config debugMessage interaction = Inr line \<longrightarrow>
        (\<exists>rest. fst (sendDebug w debugMessage config interaction)
                  = ConsoleLog (debugPrefix @ getPrefixTime w @ line) # rest)
        \<and> snd (sendDebug w debugMessage config interaction) = None)"
proof (intro conjI impI)
  show "\<exists>rest. fst (sendLogMessage w m config) = ConsoleLog m # rest"
    by (rule sendLogMessage_console_first)
  show "UnhandledRejection e \<notin> set (handleError w config err interaction)"
    by (rule handleError_no_unhandled)
qed (simp_all add: sendLogMessage_resolves sendLogMessage_console_only sendLogMessage_console_once
       handleError_prints sendDebug_prints)

text \<open>
  Claim C9 against the code. The mirroring is best effort in \<^verbatim>\<open>sendLogMessage\<close> (a
  rejected \<^verbatim>\<open>send\<close> is swallowed) and in \<^verbatim>\<open>handleError\<close> (a rejected call falls back to
  \<^verbatim>\<open>console.log\<close>), but not in \<^verbatim>\<open>sendDebug\<close>: its \<^verbatim>\<open>try\<close> is around a call that
  is not awaited, so its \<^verbatim>\<open>catch\<close> is never entered. In a world whose lookup of the log
  channel rejects, with debug mode on, \<^verbatim>\<open>sendDebug\<close> prints the line once and leaves the
  rejection unhandled, where \<^verbatim>\<open>handleError\<close> on the same world catches it and prints the
  line a second time.
\<close>

theorem sendDebug_lookup_rejection_unhandled:
  "sendDebug rejectingLookupWorld (DebugString ''boom'') exampleConfig None
     = ([ConsoleLog (debugPrefix @ getPrefixTime rejectingLookupWorld @ ''boom''),
         UnhandledRejection (ThrownObject (Some ''Error: channel fetch failed''))],
        None)
   \<and> handleError rejectingLookupWorld exampleConfig (ThrownString ''boom'') None
     = [ConsoleLog (errorPrefix @ getPrefixTime rejectingLookupWorld @ ''boom''),
        ConsoleLog (errorPrefix @ getPrefixTime rejectingLookupWorld @ ''boom'')]"
proof -
  have ready: "clientReady rejectingLookupWorld"
    by (simp add: rejectingLookupWorld_def failingChannelWorld_def)
  have lookup: "getTextChannel rejectingLookupWorld (logChannel exampleConfig)
                  = Inl (ThrownObject (Some ''Error: channel fetch failed''))"
    by (simp add: rejectingLookupWorld_def)
  have dm: "debugMode exampleConfig"
    by (simp add: exampleConfig_def)
  have rejected: "sendLogMessage rejectingLookupWorld m exampleConfig
                    = ([ConsoleLog m], Some (ThrownObject (Some ''Error: channel fetch failed'')))" for m
    using ready lookup by (simp add: sendLogMessage_def)
  have debug: "sendDebug rejectingLookupWorld (DebugString ''boom'') exampleConfig None
     = ([ConsoleLog (debugPrefix @ getPrefixTime rejectingLookupWorld @ ''boom''),
         UnhandledRejection (ThrownObject (Some ''Error: channel fetch failed''))],
        None)"
    using dm by (simp add: sendDebug_def debugText_def js_str_def rejected)
  have handled: "handleError rejectingLookupWorld exampleConfig (ThrownString ''boom'') None
     = [ConsoleLog (errorPrefix @ getPrefixTime rejectingLookupWorld @ ''boom''),
        ConsoleLog (errorPrefix @ getPrefixTime rejectingLookupWorld @ ''boom'')]"
    by (subst handleError.simps)
       (simp add: errString_def completeErrorString_def js_str_def logOrConsole_def rejected)
  from debug handled show ?thesis
    by simp
qed

section \<open>Properties of the fingerprint and of the poller\<close>













lemma sendUpdateInfo_events:
  "e \<in> set (fst (sendUpdateInfo w config githubData)) \<Longrightarrow>
   (\<exists>l. e = HttpGet l) \<or> (\<exists>p g r. e = WriteFile p g r) \<or> (\<exists>t. e = HandleError t)
   \<or> (\<exists>ch em. e = SendEmbed ch em)"
  by (auto simp: sendUpdateInfo_def Let_def split: sum.splits list.splits option.splits if_splits)

lemma sendUpdateInfo_no_quest: "UpdateQuestData \<notin> set (fst (sendUpdateInfo w config githubData))"
  using sendUpdateInfo_events[of UpdateQuestData w config githubData] by auto







section \<open>Properties of sendUpdateInfo\<close>

lemma announcements_simps [simp]:
  "announcements [] = []"
  "announcements (SendEmbed ch em # es) = (ch, em) # announcements es"
  "announcements (HttpGet l # es) = announcements es"
  "announcements (WriteFile p g r # es) = announcements es"
  "announcements (HandleError e # es) = announcements es"
  by (simp_all add: announcements_def)

lemma cursorWrites_simps [simp]:
  "cursorWrites [] = []"
  "cursorWrites (SendEmbed ch em # es) = cursorWrites es"
  "cursorWrites (HttpGet l # es) = cursorWrites es"
  "cursorWrites (WriteFile p g r # es) = (p, g, r) # cursorWrites es"
  "cursorWrites (HandleError e # es) = cursorWrites es"
  by (simp_all add: cursorWrites_def)

lemma sendUpdateInfo_writes_iff:
  "cursorWrites (fst (sendUpdateInfo w config (Some g))) \<noteq> [] \<longleftrightarrow>
     (\<exists>pr rest. pullRequests w = Inr (pr # rest) \<and> html_url pr \<noteq> lastURL g \<and> merged_at pr \<noteq> None)"
  by (auto simp: sendUpdateInfo_def Let_def split: sum.splits list.splits option.splits)

lemma sendUpdateInfo_announce_only_after_write:
  "announcements (fst (sendUpdateInfo w config (Some g))) \<noteq> [] \<Longrightarrow>
   cursorWrites (fst (sendUpdateInfo w config (Some g))) \<noteq> []"
  by (auto simp: sendUpdateInfo_def Let_def split: sum.splits list.splits option.splits if_splits)

lemma sendUpdateInfo_seen:
  "pullRequests w = Inr (pr # rest) \<Longrightarrow> html_url pr = lastURL g \<Longrightarrow>
   sendUpdateInfo w config (Some g) = ([HttpGet (pullLink (stringConfig config))], Some g)"
  by (simp add: sendUpdateInfo_def)

lemma buildCommitEmbed_built:
  "buildCommitEmbed w config pr = Inr built \<Longrightarrow>
   \<exists>commitMsg. body pr = Some commitMsg \<and> built = commitEmbed config pr commitMsg"
  by (auto simp: buildCommitEmbed_def split: option.splits)

lemma buildCommitEmbed_accepted:
  "body pr = Some commitMsg \<Longrightarrow> (\<forall>setter v. embedSetter w setter v = None) \<Longrightarrow>
   buildCommitEmbed w config pr = Inr (commitEmbed config pr commitMsg)"
  by (simp add: buildCommitEmbed_def)

lemma sendUpdateInfo_persists:
  assumes "pullRequests w = Inr (pr # rest)" "html_url pr \<noteq> lastURL g" "merged_at pr \<noteq> None"
    and "writeFileSync w (globalDataFolder (pathConfig config) @ githubFileName (pathConfig config)) = None"
  shows "cursorWrites (fst (sendUpdateInfo w config (Some g)))
           = [(globalDataFolder (pathConfig config) @ githubFileName (pathConfig config),
               g\<lparr>lastURL := html_url pr\<rparr>, None)]
         \<and> snd (sendUpdateInfo w config (Some g)) = Some (g\<lparr>lastURL := html_url pr\<rparr>)"
  using assms by (auto simp: sendUpdateInfo_def Let_def split: option.splits sum.splits)

lemma sendUpdateInfo_new_merged:
  assumes "pullRequests w = Inr (pr # rest)" "html_url pr \<noteq> lastURL g" "merged_at pr \<noteq> None"
    and "writeFileSync w (globalDataFolder (pathConfig config) @ githubFileName (pathConfig config)) = None"
    and "textChannel w (updatesChannel config) = Inr found"
    and "buildCommitEmbed w config pr = Inr built"
  shows "announcements (fst (sendUpdateInfo w config (Some g)))
           = (case found of None \<Rightarrow> [] | Some ch \<Rightarrow> [(ch, built)])"
  using assms by (auto simp: sendUpdateInfo_def Let_def split: option.splits)

text \<open>
  Claim C4, as the code has it. The cursor file is written exactly when the listing's
  first item is new (its \<^verbatim>\<open>html_url\<close> is not \<^verbatim>\<open>lastURL\<close>) and merged, and nothing is
  announced without such a write. When the first item is the one already seen, nothing
  is announced, nothing is written and the cursor is unchanged. When it is new and merged
  and the write succeeds, the cursor is persisted once with \<^verbatim>\<open>lastURL\<close> set to the new
  \<^verbatim>\<open>html_url\<close>. When moreover the embed is built, which takes a body in the item and
  setters of \<^verbatim>\<open>EmbedBuilder\<close> that accept the values they are given, the announcement is
  sent exactly once if the updates channel resolves to a channel, and not at all if it
  resolves to none (\<^verbatim>\<open>commitChannel?.send\<close>).
\<close>

theorem sendUpdateInfo_announces_new_merged_when_channel:
  "(cursorWrites (fst (sendUpdateInfo w config (Some g))) \<noteq> [] \<longleftrightarrow>
      (\<exists>p ps. pullRequests w = Inr (p # ps) \<and> html_url p \<noteq> lastURL g \<and> merged_at p \<noteq> None))
   \<and> (announcements (fst (sendUpdateInfo w config (Some g))) \<noteq> [] \<longrightarrow>
        cursorWrites (fst (sendUpdateInfo w config (Some g))) \<noteq> [])
   \<and> (pullRequests w = Inr (pr # rest) \<and> html_url pr = lastURL g \<longrightarrow>
        announcements (fst (sendUpdateInfo w config (Some g))) = []
        \<and> cursorWrites (fst (sendUpdateInfo w config (Some g))) = []
        \<and> snd (sendUpdateInfo w config (Some g)) = Some g)
   \<and> (pullRequests w = Inr (pr # rest) \<and> html_url pr \<noteq> lastURL g \<and> merged_at pr \<noteq> None
        \<and> writeFileSync w (globalDataFolder (pathConfig config) @ githubFileName (pathConfig config)) = None
        \<longrightarrow>
        cursorWrites (fst (sendUpdateInfo w config (Some g)))
          = [(globalDataFolder (pathConfig config) @ githubFileName (pathConfig config),
              g\<lparr>lastURL := html_url pr\<rparr>, None)]
        \<and> snd (sendUpdateInfo w config (Some g)) = Some (g\<lparr>lastURL := html_url pr\<rparr>))
   \<and> (pullRequests w = Inr (pr # rest) \<and> html_url pr \<noteq> lastURL g \<and> merged_at pr \<noteq> None
        \<and> writeFileSync w (globalDataFolder (pathConfig config) @ githubFileName (pathConfig config)) = None
        \<and> textChannel w (updatesChannel config) = Inr found
        \<and> buildCommitEmbed w config pr = Inr built \<longrightarrow>
        announcements (fst (sendUpdateInfo w config (Some g)))
          = (case found of None \<Rightarrow> [] | Some ch \<Rightarrow> [(ch, built)])
        \<and> (\<exists>commitMsg. body pr = Some commitMsg \<and> built = commitEmbed config pr commitMsg))
   \<and> (body pr = Some commitMsg \<and> (\<forall>setter v. embedSetter w setter v = None) \<longrightarrow>
        buildCommitEmbed w config pr = Inr (commitEmbed config pr commitMsg))"
proof (intro conjI impI)
  show "(cursorWrites (fst (sendUpdateInfo w config (Some g))) \<noteq> []) =
        (\<exists>p ps. pullRequests w = Inr (p # ps) \<and> html_url p \<noteq> lastURL g \<and> merged_at p \<noteq> None)"
    by (rule sendUpdateInfo_writes_iff)
next
  assume "announcements (fst (sendUpdateInfo w config (Some g))) \<noteq> []"
  then show "cursorWrites (fst (sendUpdateInfo w config (Some g))) \<noteq> []"
    by (rule sendUpdateInfo_announce_only_after_write)
next
  assume seen: "pullRequests w = Inr (pr # rest) \<and> html_url pr = lastURL g"
  then have "sendUpdateInfo w config (Some g) = ([HttpGet (pullLink (stringConfig config))], Some g)"
    by (simp add: sendUpdateInfo_seen)
  then show "announcements (fst (sendUpdateInfo w config (Some g))) = []"
    and "cursorWrites (fst (sendUpdateInfo w config (Some g))) = []"
    and "snd (sendUpdateInfo w config (Some g)) = Some g"
    by simp_all
next
  assume new: "pullRequests w = Inr (pr # rest) \<and> html_url pr \<noteq> lastURL g \<and> merged_at pr \<noteq> None
        \<and> writeFileSync w (globalDataFolder (pathConfig config) @ githubFileName (pathConfig config)) = None"
  then have both: "cursorWrites (fst (sendUpdateInfo w config (Some g)))
           = [(globalDataFolder (pathConfig config) @ githubFileName (pathConfig config),
               g\<lparr>lastURL := html_url pr\<rparr>, None)]
         \<and> snd (sendUpdateInfo w config (Some g)) = Some (g\<lparr>lastURL := html_url pr\<rparr>)"
    using sendUpdateInfo_persists[of w pr rest g config] by blast
  from both show "cursorWrites (fst (sendUpdateInfo w config (Some g)))
           = [(globalDataFolder (pathConfig config) @ githubFileName (pathConfig config),
               g\<lparr>lastURL := html_url pr\<rparr>, None)]"
    by simp
  from both show "snd (sendUpdateInfo w config (Some g)) = Some (g\<lparr>lastURL := html_url pr\<rparr>)"
    by simp
next
  assume built: "pullRequests w = Inr (pr # rest) \<and> html_url pr \<noteq> lastURL g \<and> merged_at pr \<noteq> None
        \<and> writeFileSync w (globalDataFolder (pathConfig config) @ githubFileName (pathConfig config)) = None
        \<and> textChannel w (updatesChannel config) = Inr found
        \<and> buildCommitEmbed w config pr = Inr built"
  then show "announcements (fst (sendUpdateInfo w config (Some g)))
           = (case found of None \<Rightarrow> [] | Some ch \<Rightarrow> [(ch, built)])"
    using sendUpdateInfo_new_merged[of w pr rest g config found built] by blast
  from built show "\<exists>commitMsg. body pr = Some commitMsg \<and> built = commitEmbed config pr commitMsg"
    using buildCommitEmbed_built[of w config pr built] by blast
next
  assume "body pr = Some commitMsg \<and> (\<forall>setter v. embedSetter w setter v = None)"
  then show "buildCommitEmbed w config pr = Inr (commitEmbed config pr commitMsg)"
    by (simp add: buildCommitEmbed_accepted)
qed

text \<open>
  The scenario of the specification: cursor at X, a merged item Y, the updates channel
  found, the embed accepted. One announcement, and Y persisted.
\<close>

theorem sendUpdateInfo_announces_witness:
  "announcements (fst (sendUpdateInfo channelWorld exampleConfig (Some cursorX)))
     = [(''200'', commitEmbed exampleConfig mergedY ''Release notes'')]
   \<and> cursorWrites (fst (sendUpdateInfo channelWorld exampleConfig (Some cursorX)))
     = [(''database/global/github.json'', \<lparr>lastURL = ''https://github.com/pull/Y''\<rparr>, None)]
   \<and> snd (sendUpdateInfo channelWorld exampleConfig (Some cursorX))
     = Some \<lparr>lastURL = ''https://github.com/pull/Y''\<rparr>"
proof -
  have accepted: "body mergedY = Some ''Release notes''
                  \<and> (\<forall>setter v. embedSetter channelWorld setter v = None)"
    by (simp add: channelWorld_def mergedY_def)
  have built: "buildCommitEmbed channelWorld exampleConfig mergedY
                 = Inr (commitEmbed exampleConfig mergedY ''Release notes'')"
    using sendUpdateInfo_announces_new_merged_when_channel
            [where w = channelWorld and config = exampleConfig and pr = mergedY
               and commitMsg = "''Release notes''"]
          accepted
    by blast
  have hyps: "pullRequests channelWorld = Inr (mergedY # []) \<and> html_url mergedY \<noteq> lastURL cursorX
      \<and> merged_at mergedY \<noteq> None
      \<and> writeFileSync channelWorld
          (globalDataFolder (pathConfig exampleConfig) @ githubFileName (pathConfig exampleConfig)) = None
      \<and> textChannel channelWorld (updatesChannel exampleConfig) = Inr (Some ''200'')"
    by (simp add: channelWorld_def mergedY_def cursorX_def exampleConfig_def)
  show ?thesis
    using sendUpdateInfo_announces_new_merged_when_channel
            [where w = channelWorld and config = exampleConfig and g = cursorX and pr = mergedY
               and rest = "[]" and found = "Some ''200''"
               and built = "commitEmbed exampleConfig mergedY ''Release notes''"]
          hyps built
    by (simp add: exampleConfig_def mergedY_def cursorX_def)
qed

text \<open>
  Claim C4 as the specification states it fails where the updates channel does not
  resolve: the item is new and merged, and no announcement is sent.
\<close>

theorem sendUpdateInfo_no_channel_counterexample:
  "\<not> (html_url mergedY \<noteq> lastURL cursorX \<and> merged_at mergedY \<noteq> None \<longrightarrow>
       length (announcements (fst (sendUpdateInfo noChannelWorld exampleConfig (Some cursorX)))) = 1)"
  by (simp add: sendUpdateInfo_def buildCommitEmbed_def Let_def noChannelWorld_def mergedY_def
        cursorX_def exampleConfig_def)

section \<open>Properties of the quest rotation\<close>

lemma dependentJobs_quest:
  "questDataRead w = Inr questData \<Longrightarrow>
   UpdateQuestData \<in> set (fst (dependentJobs w config)) \<longleftrightarrow> questExpired config questData (dateNow w)"
  using sendUpdateInfo_no_quest[of "updateWorld w" config "githubDataRead w"]
  by (auto simp: dependentJobs_def Let_def)

lemma dependentJobs_quest_once:
  "count_list (fst (dependentJobs w config)) UpdateQuestData \<le> 1"
  using sendUpdateInfo_no_quest[of "updateWorld w" config "githubDataRead w"]
  by (auto simp: dependentJobs_def Let_def count_list_0_iff split: sum.splits)

lemma reloadIfChanged_no_quest:
  "reloadIfChanged w st = Inr (events, st') \<Longrightarrow> UpdateQuestData \<notin> set events"
  by (auto simp: reloadIfChanged_def split: sum.splits if_splits)

lemma reloadIfChanged_no_quest_Inl:
  "reloadIfChanged w st = Inl (events, st', e) \<Longrightarrow> UpdateQuestData \<notin> set events"
  by (auto simp: reloadIfChanged_def split: sum.splits if_splits)

lemma pollTick_quest:
  assumes "reloadIfChanged w st = Inr (events, st')" "questDataRead w = Inr questData"
  shows "UpdateQuestData \<in> set (fst (pollTick w st)) \<longleftrightarrow>
         questsStartTimestamp questData + 7 * oneDay (numberConfig (liveConfig st')) < dateNow w"
  using assms reloadIfChanged_no_quest[OF assms(1)] dependentJobs_quest[OF assms(2), of "liveConfig st'"]
  by (auto simp: pollTick_def questExpired_def split: prod.splits)

lemma pollTick_quest_once: "count_list (fst (pollTick w st)) UpdateQuestData \<le> 1"
proof (cases "reloadIfChanged w st")
  case (Inl a)
  obtain events st' e where a: "a = (events, st', e)" by (cases a) auto
  with Inl reloadIfChanged_no_quest_Inl[of w st events st' e] show ?thesis
    by (simp add: pollTick_def count_list_0_iff)
next
  case (Inr b)
  obtain events st' where b: "b = (events, st')" by (cases b) auto
  with Inr reloadIfChanged_no_quest[of w st events st'] dependentJobs_quest_once[of w "liveConfig st'"]
  show ?thesis
    by (auto simp: pollTick_def count_list_0_iff split: prod.splits)
qed

text \<open>
  Claim C5, as the code has it. On a tick that gets past the configuration check and
  reads the quest record, the quest data is regenerated exactly when the current time is
  strictly greater than the stored start plus seven times the configured day length
  (\<^verbatim>\<open>questsStartTimestamp + oneDay * 7 < Date.now()\<close>), and at most once per tick.
\<close>

theorem quest_regenerated_iff_strictly_past_seven_days:
  "(reloadIfChanged w st = Inr (events, st') \<and> questDataRead w = Inr questData \<longrightarrow>
      (UpdateQuestData \<in> set (fst (pollTick w st)) \<longleftrightarrow>
       questsStartTimestamp questData + 7 * oneDay (numberConfig (liveConfig st')) < dateNow w))
   \<and> count_list (fst (pollTick w st)) UpdateQuestData \<le> 1"
  using pollTick_quest pollTick_quest_once by blast

text \<open>One millisecond after the seven days the quest data is regenerated.\<close>

theorem quest_regenerated_witness:
  "UpdateQuestData \<in> set (fst (pollTick (boundaryWorld\<lparr>dateNow := 1001 + 7 * 86400000\<rparr>) unchangedState))"
proof -
  have reload: "reloadIfChanged (boundaryWorld\<lparr>dateNow := 1001 + 7 * 86400000\<rparr>) unchangedState
                  = Inr ([], unchangedState)"
    by (simp add: reloadIfChanged_def getConfigHash_def boundaryWorld_def unchangedState_def)
  have quest: "questDataRead (boundaryWorld\<lparr>dateNow := 1001 + 7 * 86400000\<rparr>)
                 = Inr \<lparr>questsStartTimestamp = 1000\<rparr>"
    by (simp add: boundaryWorld_def)
  show ?thesis
    using quest_regenerated_iff_strictly_past_seven_days
            [where w = "boundaryWorld\<lparr>dateNow := 1001 + 7 * 86400000\<rparr>" and st = unchangedState
               and events = "[]" and st' = unchangedState
               and questData = "\<lparr>questsStartTimestamp = 1000\<rparr>"]
          reload quest
    by (simp add: unchangedState_def exampleConfig_def boundaryWorld_def)
qed

text \<open>
  Claim C5 as the specification states it fails at the boundary: exactly seven days after
  the start (now = start + 7 days, so now \<ge> start + 7 days) the tick does not regenerate.
\<close>

theorem quest_boundary_counterexample:
  "\<not> (UpdateQuestData \<in> set (fst (pollTick boundaryWorld unchangedState)) \<longleftrightarrow>
       questsStartTimestamp \<lparr>questsStartTimestamp = 1000\<rparr> + 7 * oneDay (numberConfig exampleConfig)
        \<le> dateNow boundaryWorld)"
  by (simp add: pollTick_def reloadIfChanged_def getConfigHash_def boundaryWorld_def unchangedState_def
        dependentJobs_def sendUpdateInfo_def questExpired_def exampleConfig_def)

section \<open>Properties of the guild-data sweep\<close>

lemma removeFile_filter:
  "filter (\<lambda>e. fst e \<notin> set ns) (removeFile n dir) = filter (\<lambda>e. fst e \<notin> set (n # ns)) dir"
  by (induction dir) (auto simp: removeFile_def)

lemma sweep_readable_prefix:
  "\<forall>(n, c) \<in> set files. readable ne c \<Longrightarrow>
   sweepGuildFiles ne gp (files @ later) dir =
     (case sweepGuildFiles ne gp later (filter (\<lambda>e. fst e \<notin> set (removedNames ne files)) dir) of
        (events, dir', thrown) \<Rightarrow> (removalEvents ne gp files @ events, dir', thrown))"
proof (induction files arbitrary: dir)
  case Nil
  then show ?case by (simp add: removedNames_def removalEvents_def)
next
  case (Cons f files)
  obtain n c where f: "f = (n, c)" by (cases f)
  from Cons.prems f obtain j b where c: "c = Parsed j" and b: "fullySetup ne j = Inr b"
    by (auto simp: readable_def split: file_content.splits sum.splits)
  from Cons.prems have rest: "\<forall>(n, c) \<in> set files. readable ne c" by simp
  show ?case
  proof (cases b)
    case True
    with f c b Cons.IH[OF rest, of dir] show ?thesis
      by (simp add: removedNames_def removalEvents_def keptBySweep_def)
  next
    case False
    have names: "removedNames ne (f # files) = n # removedNames ne files"
      using f c b False by (simp add: removedNames_def keptBySweep_def)
    have "filter (\<lambda>e. fst e \<notin> set (removedNames ne files)) (removeFile n dir)
          = filter (\<lambda>e. fst e \<notin> set (removedNames ne (f # files))) dir"
      unfolding names by (rule removeFile_filter)
    with False f c b Cons.IH[OF rest, of "removeFile n dir"] show ?thesis
      by (simp add: removalEvents_def keptBySweep_def split: prod.splits)
  qed
qed

lemma removed_filter_distinct:
  assumes "distinct (map fst (files @ later))"
  shows "filter (\<lambda>e. fst e \<notin> set (removedNames ne files)) (files @ later)
         = filter (\<lambda>(n, c). keptBySweep ne c) files @ later"
proof -
  have unique: "e \<in> set files \<Longrightarrow> e' \<in> set (files @ later) \<Longrightarrow> fst e = fst e' \<Longrightarrow> e = e'" for e e'
    using assms by (metis eq_key_imp_eq_value prod.collapse set_append UnI1)
  have a: "filter (\<lambda>e. fst e \<notin> set (removedNames ne files)) files = filter (\<lambda>(n, c). keptBySweep ne c) files"
  proof (rule filter_cong[OF refl])
    fix e assume e: "e \<in> set files"
    obtain n c where nc: "e = (n, c)" by (cases e)
    show "(fst e \<notin> set (removedNames ne files)) = (case e of (n, c) \<Rightarrow> keptBySweep ne c)"
    proof
      assume "fst e \<notin> set (removedNames ne files)"
      with e nc show "case e of (n, c) \<Rightarrow> keptBySweep ne c"
        by (force simp: removedNames_def)
    next
      assume k: "case e of (n, c) \<Rightarrow> keptBySweep ne c"
      show "fst e \<notin> set (removedNames ne files)"
      proof
        assume "fst e \<in> set (removedNames ne files)"
        then obtain e' where e': "e' \<in> set files" "fst e' = fst e" "\<not> (case e' of (n, c) \<Rightarrow> keptBySweep ne c)"
          by (auto simp: removedNames_def)
        with unique[of e' e] e have "e' = e" by simp
        with e' k show False by simp
      qed
    qed
  qed
  have b: "filter (\<lambda>e. fst e \<notin> set (removedNames ne files)) later = later"
  proof (rule filter_True, rule ballI)
    fix e assume e: "e \<in> set later"
    show "fst e \<notin> set (removedNames ne files)"
    proof
      assume "fst e \<in> set (removedNames ne files)"
      then obtain e' where e': "e' \<in> set files" "fst e' = fst e"
        by (auto simp: removedNames_def)
      with unique[of e' e] e have "e' = e" by simp
      with e' e assms show False
        by (auto simp: image_iff) 
    qed
  qed
  show ?thesis by (simp add: a b)
qed

lemma flagOf_kept:
  "flagOf c = Some b \<Longrightarrow> readable ne c \<and> keptBySweep ne c = b"
  by (auto simp: flagOf_def readable_def keptBySweep_def
           split: file_content.splits json.splits option.splits)

lemma flagged_readable:
  "\<forall>(n, c) \<in> set files. flagOf c \<noteq> None \<Longrightarrow> \<forall>(n, c) \<in> set files. readable ne c"
  using flagOf_kept by fastforce

lemma flagged_kept:
  assumes "\<forall>(n, c) \<in> set files. flagOf c \<noteq> None"
  shows "filter (\<lambda>(n, c). keptBySweep ne c) files = filter (\<lambda>(n, c). flagOf c = Some True) files"
proof (rule filter_cong[OF refl])
  fix e assume "e \<in> set files"
  with assms obtain b where "flagOf (snd e) = Some b"
    by (cases e) auto
  with flagOf_kept[of "snd e" b ne] show "(case e of (n, c) \<Rightarrow> keptBySweep ne c) = (case e of (n, c) \<Rightarrow> flagOf c = Some True)"
    by (cases e) auto
qed

lemma removedPaths_append: "removedPaths (xs @ ys) = removedPaths xs @ removedPaths ys"
  by (simp add: removedPaths_def)

lemma removedPaths_removalEvents:
  assumes "\<forall>(n, c) \<in> set files. flagOf c \<noteq> None"
  shows "removedPaths (removalEvents ne gp files)
         = map (\<lambda>(n, c). gp @ n) (filter (\<lambda>(n, c). flagOf c = Some False) files)"
  using assms
proof (induction files)
  case Nil
  then show ?case by (simp add: removedPaths_def removalEvents_def)
next
  case (Cons f files)
  obtain n c where f: "f = (n, c)" by (cases f)
  with Cons.prems obtain b where b: "flagOf c = Some b" by auto
  from Cons have IH: "removedPaths (removalEvents ne gp files)
         = map (\<lambda>(n, c). gp @ n) (filter (\<lambda>(n, c). flagOf c = Some False) files)"
    by simp
  have step: "removalEvents ne gp (f # files)
        = (if b then [] else [RemoveFile (gp @ n), Log (''Deleted unfinished guild file: '' @ n) None])
          @ removalEvents ne gp files"
    using f flagOf_kept[OF b, of ne] by (simp add: removalEvents_def)
  have first: "removedPaths (if b then [] else [RemoveFile (gp @ n), Log (''Deleted unfinished guild file: '' @ n) None])
               = (if b then [] else [gp @ n])"
    by (simp add: removedPaths_def)
  have "removedPaths (removalEvents ne gp (f # files))
        = (if b then [] else [gp @ n])
          @ map (\<lambda>(n, c). gp @ n) (filter (\<lambda>(n, c). flagOf c = Some False) files)"
    by (simp only: step removedPaths_append first IH)
  then show ?case
    using f b by (cases b) simp_all
qed

lemma listGuildFolder_present:
  "databaseFolderExists w \<Longrightarrow> guildFolder w = Some files \<Longrightarrow> readdirSync w = None \<Longrightarrow>
   listGuildFolder w config = Inr ([], files)"
  by (simp add: listGuildFolder_def)

text \<open>
  Claim C3. When the folders exist and every file of the guild folder is a record with a
  boolean \<^verbatim>\<open>fullySetup\<close> flag, the sweep returns, exactly the records whose flag is
  true remain, in their order and unchanged, and the files removed are exactly those of
  the records whose flag is false.
\<close>

theorem fixGuildData_keeps_exactly_fully_set_up:
  assumes "databaseFolderExists w" and "guildFolder w = Some files" and "readdirSync w = None"
    and "distinct (map fst files)"
    and "\<forall>(n, c) \<in> set files. flagOf c \<noteq> None"
  shows "fst (snd (fixGuildData w config)) = Some (filter (\<lambda>(n, c). flagOf c = Some True) files)
         \<and> snd (snd (fixGuildData w config)) = Returned
         \<and> removedPaths (fst (fixGuildData w config))
           = map (\<lambda>(n, c). databaseFolder (pathConfig config) @ guildDataFolder (pathConfig config) @ n)
               (filter (\<lambda>(n, c). flagOf c = Some False) files)"
proof -
  let ?ne = "nullReadError w"
  let ?gp = "databaseFolder (pathConfig config) @ guildDataFolder (pathConfig config)"
  have readable: "\<forall>(n, c) \<in> set files. readable ?ne c"
    using assms(5) by (rule flagged_readable)
  have "sweepGuildFiles ?ne ?gp (files @ []) files =
          (removalEvents ?ne ?gp files,
           filter (\<lambda>e. fst e \<notin> set (removedNames ?ne files)) (files @ []), None)"
    using sweep_readable_prefix[OF readable, of ?gp "[]" files] by simp
  moreover have "filter (\<lambda>e. fst e \<notin> set (removedNames ?ne files)) (files @ [])
                 = filter (\<lambda>(n, c). flagOf c = Some True) files"
    using removed_filter_distinct[of files "[]" ?ne] assms(4) flagged_kept[OF assms(5), of ?ne]
    by simp
  ultimately have sweep: "sweepGuildFiles ?ne ?gp files files =
          (removalEvents ?ne ?gp files, filter (\<lambda>(n, c). flagOf c = Some True) files, None)"
    by simp
  show ?thesis
    using listGuildFolder_present[OF assms(1-3), of config] sweep
          removedPaths_removalEvents[OF assms(5), of ?ne ?gp]
    by (simp add: fixGuildData_def removedPaths_append, simp add: removedPaths_def)
qed

text \<open>The scenario of the specification: of A (not set up) and B (set up), only B remains.\<close>

theorem fixGuildData_scenario_witness:
  "fst (snd (fixGuildData scenarioWorld exampleConfig)) = Some [(''B.json'', guildRecord True)]
   \<and> snd (snd (fixGuildData scenarioWorld exampleConfig)) = Returned
   \<and> removedPaths (fst (fixGuildData scenarioWorld exampleConfig)) = [''database/guilds/A.json'']"
proof -
  have flags: "flagOf (guildRecord True) = Some True" "flagOf (guildRecord False) = Some False"
    by (simp_all add: flagOf_def guildRecord_def)
  have hyps: "databaseFolderExists scenarioWorld"
    "guildFolder scenarioWorld = Some [(''A.json'', guildRecord False), (''B.json'', guildRecord True)]"
    "readdirSync scenarioWorld = None"
    "distinct (map fst [(''A.json'', guildRecord False), (''B.json'', guildRecord True)])"
    "\<forall>(n, c) \<in> set [(''A.json'', guildRecord False), (''B.json'', guildRecord True)]. flagOf c \<noteq> None"
    by (auto simp: scenarioWorld_def flags)
  show ?thesis
    using fixGuildData_keeps_exactly_fully_set_up[OF hyps, of exampleConfig]
    by (simp add: flags exampleConfig_def)
qed

text \<open>
  Claim C7, as the code has it. No \<^verbatim>\<open>try\<close> surrounds the loop, so a file that fails to
  parse ends the sweep with its error: the records listed before it have been processed by
  their own flags, and the malformed file and every file listed after it are left on
  disk as they were, whatever their flags. No record is altered.
\<close>

theorem fixGuildData_malformed_file_ends_sweep:
  assumes "databaseFolderExists w" and "readdirSync w = None"
    and "guildFolder w = Some (earlier @ (name, Unparsable e) # later)"
    and "distinct (map fst (earlier @ (name, Unparsable e) # later))"
    and "\<forall>(n, c) \<in> set earlier. flagOf c \<noteq> None"
  shows "fst (snd (fixGuildData w config))
           = Some (filter (\<lambda>(n, c). flagOf c = Some True) earlier @ (name, Unparsable e) # later)
         \<and> snd (snd (fixGuildData w config)) = Threw e
         \<and> removedPaths (fst (fixGuildData w config))
           = map (\<lambda>(n, c). databaseFolder (pathConfig config) @ guildDataFolder (pathConfig config) @ n)
               (filter (\<lambda>(n, c). flagOf c = Some False) earlier)"
proof -
  let ?ne = "nullReadError w"
  let ?gp = "databaseFolder (pathConfig config) @ guildDataFolder (pathConfig config)"
  let ?files = "earlier @ (name, Unparsable e) # later"
  have readable: "\<forall>(n, c) \<in> set earlier. readable ?ne c"
    using assms(5) by (rule flagged_readable)
  have "sweepGuildFiles ?ne ?gp ?files ?files =
          (removalEvents ?ne ?gp earlier,
           filter (\<lambda>e. fst e \<notin> set (removedNames ?ne earlier)) ?files, Some e)"
    using sweep_readable_prefix[OF readable, of ?gp "(name, Unparsable e) # later" ?files] by simp
  moreover have "filter (\<lambda>e. fst e \<notin> set (removedNames ?ne earlier)) ?files
                 = filter (\<lambda>(n, c). flagOf c = Some True) earlier @ (name, Unparsable e) # later"
    using removed_filter_distinct[OF assms(4), of ?ne] flagged_kept[OF assms(5), of ?ne]
    by simp
  ultimately have sweep: "sweepGuildFiles ?ne ?gp ?files ?files =
          (removalEvents ?ne ?gp earlier,
           filter (\<lambda>(n, c). flagOf c = Some True) earlier @ (name, Unparsable e) # later, Some e)"
    by simp
  show ?thesis
    using listGuildFolder_present[OF assms(1) assms(3) assms(2), of config] sweep
          removedPaths_removalEvents[OF assms(5), of ?ne ?gp]
    by (simp add: fixGuildData_def)
qed

theorem fixGuildData_malformed_witness:
  "fst (snd (fixGuildData malformedWorld exampleConfig)) = guildFolder malformedWorld
   \<and> snd (snd (fixGuildData malformedWorld exampleConfig))
     = Threw (ThrownObject (Some ''SyntaxError: Unexpected end of JSON input''))
   \<and> removedPaths (fst (fixGuildData malformedWorld exampleConfig)) = []"
proof -
  have flags: "flagOf (guildRecord True) = Some True"
    by (simp add: flagOf_def guildRecord_def)
  have hyps: "databaseFolderExists malformedWorld" "readdirSync malformedWorld = None"
    "guildFolder malformedWorld
       = Some ([(''A.json'', guildRecord True)]
               @ (''M.json'', Unparsable (ThrownObject (Some ''SyntaxError: Unexpected end of JSON input'')))
               # [(''Z.json'', guildRecord False)])"
    "distinct (map fst ([(''A.json'', guildRecord True)]
               @ (''M.json'', Unparsable (ThrownObject (Some ''SyntaxError: Unexpected end of JSON input'')))
               # [(''Z.json'', guildRecord False)]))"
    "\<forall>(n, c) \<in> set [(''A.json'', guildRecord True)]. flagOf c \<noteq> None"
    by (auto simp: malformedWorld_def flags)
  show ?thesis
    using fixGuildData_malformed_file_ends_sweep[OF hyps, of exampleConfig]
    by (simp add: flags malformedWorld_def)
qed

text \<open>
  Claim C7 as the specification states it fails: in a folder whose second file is
  malformed, the third file is an abandoned setup (flag false) and is still on disk after
  the sweep, so it is not true that every other record remains exactly when its flag is
  true.
\<close>

theorem fixGuildData_malformed_counterexample:
  "\<not> (\<exists>remaining. fst (snd (fixGuildData malformedWorld exampleConfig)) = Some remaining
        \<and> (\<forall>(n, c) \<in> set [(''A.json'', guildRecord True), (''Z.json'', guildRecord False)].
              (n, c) \<in> set remaining \<longleftrightarrow> flagOf c = Some True))"
  by (simp add: fixGuildData_def listGuildFolder_def malformedWorld_def guildRecord_def flagOf_def)

section \<open>Properties of onStart\<close>

lemma spawnersConstructed_append:
  "spawnersConstructed (xs @ ys) = spawnersConstructed xs @ spawnersConstructed ys"
  by (simp add: spawnersConstructed_def)

lemma warmUserCache_no_spawner: "spawnersConstructed (warmUserCache fetch userFiles) = []"
  by (induction userFiles)
     (auto simp: spawnersConstructed_def Let_def split: fetch_outcome.splits)

lemma finishStart_no_spawner: "spawnersConstructed (fst (finishStart w config)) = []"
  using warmUserCache_no_spawner[of "usersFetch w"]
  by (auto simp: finishStart_def Let_def spawnersConstructed_append split: option.splits)
     (simp_all add: spawnersConstructed_def)

lemma startPowerups_read:
  "powerupsRead w = Inr powerupData \<Longrightarrow>
   startPowerups w =
     ([QueueBegin ''startglobal'', ReadGlobalPowerups, QueueEnd ''startglobal'',
       NewPowerupSpawner (nextPowerup powerupData), StartSpawning], None)"
  by (simp add: startPowerups_def addQueue_def readPowerupWork_def)

lemma startPowerups_read_throws:
  "powerupsRead w = Inl err \<Longrightarrow>
   startPowerups w =
     ([QueueBegin ''startglobal'', ReadGlobalPowerups, HandleError err, QueueEnd ''startglobal'',
       NewPowerupSpawner 0, StartSpawning], None)"
  by (simp add: startPowerups_def addQueue_def readPowerupWork_def)

lemma onStart_after_powerups:
  assumes "startConfigFile w = Inr bytes" and "startPowerups w = (events, None)"
  shows "\<exists>later. onStart w config =
           [Log ''Successfully logged in! Bot online!'' None, RegisterRateLimited,
            StartNotificationCron, SetInterval 120000] @ events @ later
         \<and> spawnersConstructed later = []"
proof (cases "finishStart w config")
  case (Pair events' r)
  have none: "spawnersConstructed events' = []"
    using finishStart_no_spawner[of w config] Pair by simp
  show ?thesis
  proof (cases r)
    case None
    with Pair assms none show ?thesis
      by (simp add: onStart_def getConfigHash_def)
  next
    case (Some e)
    with Pair assms none show ?thesis
      by (simp add: onStart_def getConfigHash_def spawnersConstructed_append)
         (simp add: spawnersConstructed_def)
  qed
qed

text \<open>
  Claim C6. When the boot gets to the powerup section (the configuration file was read)
  and the read of the global powerup record succeeds, the read runs inside the queue
  entry keyed \<^verbatim>\<open>'start' + 'global'\<close>, that is "startglobal", the entry ends, and only
  then the one \<^verbatim>\<open>PowerupSpawner\<close> of the boot is constructed, with the record's
  \<^verbatim>\<open>nextPowerup\<close> as its countdown, and started.
\<close>

theorem onStart_spawner_gets_nextPowerup:
  assumes "startConfigFile w = Inr bytes" and "powerupsRead w = Inr powerupData"
  shows "\<exists>later. onStart w config =
           [Log ''Successfully logged in! Bot online!'' None, RegisterRateLimited,
            StartNotificationCron, SetInterval 120000,
            QueueBegin ''startglobal'', ReadGlobalPowerups, QueueEnd ''startglobal'',
            NewPowerupSpawner (nextPowerup powerupData), StartSpawning] @ later
         \<and> spawnersConstructed later = []"
  using onStart_after_powerups[OF assms(1) startPowerups_read[OF assms(2)], of config]
  by simp

text \<open>The specification's scenario: the record holds 5000, the spawner is given 5000.\<close>

theorem onStart_spawner_5000_witness:
  "\<exists>later. onStart bootWorld exampleConfig =
     [Log ''Successfully logged in! Bot online!'' None, RegisterRateLimited,
      StartNotificationCron, SetInterval 120000,
      QueueBegin ''startglobal'', ReadGlobalPowerups, QueueEnd ''startglobal'',
      NewPowerupSpawner 5000, StartSpawning] @ later
   \<and> spawnersConstructed later = []"
proof -
  have cfile: "startConfigFile bootWorld = Inr []"
    by (simp add: bootWorld_def)
  have pow: "powerupsRead bootWorld = Inr \<lparr>nextPowerup = 5000\<rparr>"
    by (simp add: bootWorld_def)
  show ?thesis
    using onStart_spawner_gets_nextPowerup[OF cfile pow, of exampleConfig] by simp
qed

text \<open>
  Claim C10. When the read of the global powerup record throws, the error is caught
  inside the queued work and handed to \<^verbatim>\<open>handleError\<close>, the queue entry ends,
  \<^verbatim>\<open>timeUntilPow\<close> is still 0, and the one \<^verbatim>\<open>PowerupSpawner\<close> of the boot is
  constructed with countdown 0 and started: \<^verbatim>\<open>onStart\<close> goes on.
\<close>

theorem onStart_powerup_read_failure_spawns_with_zero:
  assumes "startConfigFile w = Inr bytes" and "powerupsRead w = Inl err"
  shows "\<exists>later. onStart w config =
           [Log ''Successfully logged in! Bot online!'' None, RegisterRateLimited,
            StartNotificationCron, SetInterval 120000,
            QueueBegin ''startglobal'', ReadGlobalPowerups, HandleError err, QueueEnd ''startglobal'',
            NewPowerupSpawner 0, StartSpawning] @ later
         \<and> spawnersConstructed later = []"
  using onStart_after_powerups[OF assms(1) startPowerups_read_throws[OF assms(2)], of config]
  by simp

theorem onStart_powerup_read_failure_witness:
  "\<exists>later. onStart brokenPowerupWorld exampleConfig =
     [Log ''Successfully logged in! Bot online!'' None, RegisterRateLimited,
      StartNotificationCron, SetInterval 120000,
      QueueBegin ''startglobal'', ReadGlobalPowerups,
      HandleError (ThrownObject (Some ''SyntaxError: Unexpected token'')), QueueEnd ''startglobal'',
      NewPowerupSpawner 0, StartSpawning] @ later
   \<and> spawnersConstructed later = []"
proof -
  have cfile: "startConfigFile brokenPowerupWorld = Inr []"
    by (simp add: brokenPowerupWorld_def bootWorld_def)
  have pow: "powerupsRead brokenPowerupWorld = Inl (ThrownObject (Some ''SyntaxError: Unexpected token''))"
    by (simp add: brokenPowerupWorld_def)
  show ?thesis
    using onStart_powerup_read_failure_spawns_with_zero[OF cfile pow, of exampleConfig] by simp
qed

text \<open>
  Claim C8 against the code. The loop visits every user file, in order, and sleeps after
  each fetch it started, however the fetches end. But a fetch that fails by rejecting its
  promise never reaches the \<^verbatim>\<open>catch\<close> (the call is not awaited): in a folder with the
  files of users 123 and 456, where the fetch of 123 rejects, nothing is handed to
  \<^verbatim>\<open>handleError\<close>, and the rejection is left unhandled.
\<close>

theorem warmUserCache_rejected_fetch_not_logged:
  "warmUserCache (usersFetch bootWorld) [''123.json'', ''456.json'']
     = [UsersFetch ''123'', UnhandledFetchRejection ''123'', Sleep 1000,
        UsersFetch ''456'', Sleep 1000]
   \<and> errorsHandled (warmUserCache (usersFetch bootWorld) [''123.json'', ''456.json'']) = []"
  by (simp add: bootWorld_def errorsHandled_def Let_def)

text \<open>In general: unless a fetch throws before returning its promise, the loop logs nothing.\<close>

lemma warmUserCache_logs_only_synchronous_throws:
  "(\<forall>userFile \<in> set userFiles. \<forall>e. fetch (takeWhile (\<lambda>c. c \<noteq> CHR ''.'') userFile) \<noteq> FetchThrows e)
   \<Longrightarrow> errorsHandled (warmUserCache fetch userFiles) = []"
  by (induction userFiles)
     (auto simp: errorsHandled_def Let_def split: fetch_outcome.splits)

text \<open>
  What does hold of the loop: when no fetch throws before returning its promise, every
  user file is fetched, in the listing's order, and the loop sleeps once per file.
\<close>

lemma warmUserCache_visits_every_file:
  "(\<forall>userFile \<in> set userFiles. \<forall>e. fetch (takeWhile (\<lambda>c. c \<noteq> CHR ''.'') userFile) \<noteq> FetchThrows e)
   \<Longrightarrow> concat (map (\<lambda>e. case e of UsersFetch uid \<Rightarrow> [uid] | _ \<Rightarrow> [])
                   (warmUserCache fetch userFiles))
         = map (takeWhile (\<lambda>c. c \<noteq> CHR ''.'')) userFiles
       \<and> count_list (warmUserCache fetch userFiles) (Sleep 1000) = length userFiles"
  by (induction userFiles) (auto simp: Let_def split: fetch_outcome.splits)

section \<open>Properties of the Keyed Task Queue\<close>

lemma keyTrace_append: "keyTrace key (xs @ ys) = keyTrace key xs @ keyTrace key ys"
  by (simp add: keyTrace_def)

lemma submitted_append: "submitted key (xs @ ys) = submitted key xs @ submitted key ys"
  by (simp add: submitted_def)

lemma oneAtATime_append: "oneAtATime (xs @ ys) = oneAtATime xs @ oneAtATime ys"
  by (simp add: oneAtATime_def)

lemma runQueue_snoc: "runQueue (actions @ [a]) = queueStep (runQueue actions) a"
  by (simp add: runQueue_def)

lemma keyInvariant_enqueue_same:
  assumes "keyInvariant key subm q finished"
  shows "keyInvariant key (subm @ [work]) (enqueue key work q) finished"
  using assms
  by (cases "chains q key")
     (simp_all add: keyInvariant_def enqueue_def keyTrace_append, simp_all add: keyTrace_def)

lemma keyInvariant_enqueue_other:
  assumes "keyInvariant key subm q finished" and "k \<noteq> key"
  shows "keyInvariant key subm (enqueue k work q) finished"
  using assms
  by (simp add: keyInvariant_def enqueue_def keyTrace_append) (simp add: keyTrace_def)

lemma keyInvariant_settle_other:
  assumes "keyInvariant key subm q finished" and "k \<noteq> key"
  shows "keyInvariant key subm (settle k ok q) finished"
  using assms
  by (auto simp: keyInvariant_def settle_def keyTrace_append split: list.splits)
     (simp_all add: keyTrace_def)

lemma keyInvariant_settle_same:
  assumes "keyInvariant key subm q finished"
  shows "keyInvariant key subm (settle key ok q) (finished @ take 1 (chains q key))"
proof (cases "chains q key")
  case Nil
  with assms show ?thesis by (simp add: settle_def)
next
  case (Cons work waiting)
  have tr: "keyTrace key (End key work ok # (case waiting of [] \<Rightarrow> [] | following # later \<Rightarrow> [Begin key following]))
            = Finished work # (case waiting of [] \<Rightarrow> [] | following # later \<Rightarrow> [Started following])"
    by (cases waiting) (simp_all add: keyTrace_def)
  from assms Cons show ?thesis
    by (simp add: keyInvariant_def settle_def keyTrace_append tr oneAtATime_append)
       (simp add: oneAtATime_def)
qed

lemma runQueue_invariant:
  "\<exists>finished. keyInvariant key (submitted key actions) (runQueue actions) finished"
proof (induction actions rule: rev_induct)
  case Nil
  show ?case
    by (rule exI[of _ "[]"])
       (simp add: keyInvariant_def runQueue_def emptyQueue_def submitted_def keyTrace_def oneAtATime_def)
next
  case (snoc a actions)
  then obtain finished where inv: "keyInvariant key (submitted key actions) (runQueue actions) finished"
    by blast
  show ?case
  proof (cases a)
    case (Enqueue k work)
    show ?thesis
    proof (cases "k = key")
      case True
      with Enqueue keyInvariant_enqueue_same[OF inv, of work] show ?thesis
        by (auto simp: runQueue_snoc submitted_append) (auto simp: submitted_def)
    next
      case False
      with Enqueue keyInvariant_enqueue_other[OF inv False, of work] show ?thesis
        by (auto simp: runQueue_snoc submitted_append) (auto simp: submitted_def)
    qed
  next
    case (Settle k ok)
    show ?thesis
    proof (cases "k = key")
      case True
      with Settle keyInvariant_settle_same[OF inv, of ok] show ?thesis
        by (auto simp: runQueue_snoc submitted_append) (auto simp: submitted_def)
    next
      case False
      with Settle keyInvariant_settle_other[OF inv False, of ok] show ?thesis
        by (auto simp: runQueue_snoc submitted_append) (auto simp: submitted_def)
    qed
  qed
qed


lemma runQueue_append_foldl: "runQueue (xs @ ys) = foldl queueStep (runQueue xs) ys"
  by (simp add: runQueue_def)

text \<open>Settling a key as often as it has works pending empties its chain, one work at a time.\<close>

lemma drain_key:
  "keyInvariant key subm q finished \<Longrightarrow> length (chains q key) = length oks \<Longrightarrow>
   keyInvariant key subm (foldl queueStep q (map (Settle key) oks)) (finished @ chains q key)
   \<and> chains (foldl queueStep q (map (Settle key) oks)) key = []"
proof (induction oks arbitrary: q finished)
  case Nil
  then show ?case by simp
next
  case (Cons ok oks)
  then obtain work waiting where ch: "chains q key = work # waiting"
    by (cases "chains q key") auto
  let ?q = "settle key ok q"
  have inv: "keyInvariant key subm ?q (finished @ [work])"
    using keyInvariant_settle_same[OF Cons.prems(1), of ok] ch by simp
  have rest: "chains ?q key = waiting"
    using ch by (simp add: settle_def)
  with Cons.prems(2) ch have len: "length (chains ?q key) = length oks"
    by simp
  from Cons.IH[OF inv len] rest ch show ?case
    by simp
qed

lemma queueStep_other_key:
  "actionKey a \<noteq> key \<Longrightarrow>
   chains (queueStep q a) key = chains q key
   \<and> keyTrace key (trace (queueStep q a)) = keyTrace key (trace q)"
  by (cases a)
     (auto simp: enqueue_def settle_def keyTrace_append split: list.splits, simp_all add: keyTrace_def)

lemma queueStep_same_key:
  assumes "chains q key = chains q' key" and "keyTrace key (trace q) = keyTrace key (trace q')"
    and "actionKey a = key"
  shows "chains (queueStep q a) key = chains (queueStep q' a) key
         \<and> keyTrace key (trace (queueStep q a)) = keyTrace key (trace (queueStep q' a))"
  using assms
  by (cases a) (auto simp: enqueue_def settle_def keyTrace_append split: list.splits)

lemma runQueue_only_own_key:
  "chains (runQueue actions) key = chains (runQueue (filter (\<lambda>a. actionKey a = key) actions)) key
   \<and> keyTrace key (trace (runQueue actions))
     = keyTrace key (trace (runQueue (filter (\<lambda>a. actionKey a = key) actions)))"
proof (induction actions rule: rev_induct)
  case Nil
  show ?case by simp
next
  case (snoc a actions)
  show ?case
  proof (cases "actionKey a = key")
    case True
    with snoc queueStep_same_key[of "runQueue actions" key
           "runQueue (filter (\<lambda>a. actionKey a = key) actions)" a]
    show ?thesis by (simp add: runQueue_snoc)
  next
    case False
    with snoc queueStep_other_key[of a key "runQueue actions"]
    show ?thesis by (simp add: runQueue_snoc)
  qed
qed

text \<open>
  Claim C1, on the queue as the specification describes it. For every sequence of
  enqueues and settlings and every key: the works submitted under the key are those
  finished followed by those still in its chain, and the key's part of the trace is the
  finished works begun and ended one at a time in submission order, followed by the begin
  of the work that runs, if any; so works of one key begin in submission order, none twice,
  and none begins before the one before it has ended. Once each pending work of the key
  has settled, whatever the outcomes, every work submitted under the key has begun and
  ended exactly once, in submission order. The key's part of the trace is the same when
  all actions on other keys are left out: other keys impose nothing on it.
\<close>

theorem keyed_queue_fifo_one_at_a_time:
  "(\<exists>finished.
       submitted key actions = finished @ chains (runQueue actions) key
       \<and> keyTrace key (trace (runQueue actions))
         = oneAtATime finished
           @ (case chains (runQueue actions) key of [] \<Rightarrow> [] | work # waiting \<Rightarrow> [Started work]))
   \<and> keyTrace key
        (trace (runQueue (actions @ map (\<lambda>i. Settle key (outcome i))
                                      [0..<length (chains (runQueue actions) key)])))
     = oneAtATime (submitted key actions)
   \<and> keyTrace key (trace (runQueue actions))
     = keyTrace key (trace (runQueue (filter (\<lambda>a. actionKey a = key) actions)))"
proof (intro conjI)
  obtain finished where inv: "keyInvariant key (submitted key actions) (runQueue actions) finished"
    using runQueue_invariant by blast
  then show "\<exists>finished.
       submitted key actions = finished @ chains (runQueue actions) key
       \<and> keyTrace key (trace (runQueue actions))
         = oneAtATime finished
           @ (case chains (runQueue actions) key of [] \<Rightarrow> [] | work # waiting \<Rightarrow> [Started work])"
    unfolding keyInvariant_def by blast
  let ?n = "length (chains (runQueue actions) key)"
  let ?q = "foldl queueStep (runQueue actions) (map (Settle key) (map outcome [0..<?n]))"
  have "keyInvariant key (submitted key actions) ?q (finished @ chains (runQueue actions) key)
        \<and> chains ?q key = []"
    using inv by (intro drain_key) simp_all
  moreover have "submitted key actions = finished @ chains (runQueue actions) key"
    using inv by (simp add: keyInvariant_def)
  ultimately have "keyTrace key (trace ?q) = oneAtATime (submitted key actions)"
    by (simp add: keyInvariant_def)
  then show "keyTrace key
        (trace (runQueue (actions @ map (\<lambda>i. Settle key (outcome i))
                                      [0..<length (chains (runQueue actions) key)])))
     = oneAtATime (submitted key actions)"
    by (simp add: runQueue_append_foldl comp_def)
  show "keyTrace key (trace (runQueue actions))
     = keyTrace key (trace (runQueue (filter (\<lambda>a. actionKey a = key) actions)))"
    using runQueue_only_own_key by blast
qed

text \<open>
  In the example run the works of key a run one at a time in submission order although
  the first fails, and the work of key b, submitted last, begins before the second work
  of key a and while the first is running: between keys there is no order.
\<close>

theorem keyed_queue_example_witness:
  "trace (runQueue exampleRun)
     = [Begin ''a'' 1, Begin ''b'' 3, End ''a'' 1 False, Begin ''a'' 2, End ''b'' 3 True, End ''a'' 2 True]
   \<and> keyTrace ''a'' (trace (runQueue exampleRun)) = oneAtATime [1, 2]"
proof -
  have run: "trace (runQueue exampleRun)
     = [Begin ''a'' 1, Begin ''b'' 3, End ''a'' 1 False, Begin ''a'' 2, End ''b'' 3 True, End ''a'' 2 True]"
    by (simp add: exampleRun_def runQueue_def emptyQueue_def enqueue_def settle_def)
  have pending: "chains (runQueue exampleRun) ''a'' = []"
    by (simp add: exampleRun_def runQueue_def emptyQueue_def enqueue_def settle_def)
  have subm: "submitted ''a'' exampleRun = [1, 2]"
    by (simp add: exampleRun_def submitted_def)
  show ?thesis
    using keyed_queue_fifo_one_at_a_time[of "''a''" exampleRun "\<lambda>i. True"] run pending subm
    by simp
qed

end
